theory Spec2Isabelle
  imports Complex_Main
begin

section \<open>The analog joystick class: data model\<close>

text \<open>
  The development embeds the class \<open>JoystickAnalog\<close> of
  \<open>src/assets/js/joystickAnalogControls.js\<close>. Conventions of the embedding:

  \<^item> A finite JavaScript number is the \<open>real\<close> it denotes. Every arithmetic operator of the
    source (\<open>-\<close>, \<open>+\<close>, \<open>*\<close>, \<open>/\<close>) is the exact operation followed by \<open>fl\<close>, the rounding
    of IEEE 754 binary64 to the nearest double, ties to even, with gradual underflow.
    Overflow is not modelled: a result beyond the largest double stands for the infinity
    of its sign, which the class only ever compares with a finite number.
  \<^item> ECMAScript leaves \<open>Math.sqrt\<close>, \<open>Math.pow\<close>, \<open>Math.atan2\<close>, \<open>Math.cos\<close> and \<open>Math.sin\<close>
    implementation-approximated. They are a parameter of the model, a \<open>js_math\<close> record:
    the \<open>Math\<close> object of the engine that runs the class.
  \<^item> The division by \<open>joystickRadius\<close> (zero when the track has no width) can leave the
    finite numbers: its result is a \<open>jsnum\<close> with the infinities and NaN, compared the
    way JavaScript compares them.
  \<^item> An optional callable of the options object is a \<open>bool\<close>: whether a truthy value
    was supplied. Calling it is an observable \<open>effect\<close>; what the owner's code does inside
    the call is outside the class and is assumed not to write the joystick's fields.
  \<^item> Everything the class does to the outside (console, callbacks, synthesized keyboard
    events, \<open>preventDefault\<close>) is appended, in program order, to the field \<open>effects\<close>.
  \<^item> The inline style of the handle is kept symbolically: \<open>x + 'px'\<close> is \<open>Px x\<close>, the
    string \<open>'50%'\<close> is \<open>Percent 50\<close>, and \<open>None\<close> is a property the class has not written.
\<close>

datatype jsnum = Num real | PosInfinity | NegInfinity | NaN

datatype css_length = Px real | Percent real

datatype effect =
    ConsoleLog string
  | CallBeforePressKey string
  | CallPressKeyFunction string
  | DispatchKeyboardEvent string string nat
  | CallAfterPressKey string
  | CallBeforeReleaseKeys
  | CallReleaseKeysFunction
  | CallAfterReleaseKeys
  | PreventDefault

datatype error = TypeError

record options =
  opt_parentElement :: string
  opt_pressKeyFunction :: bool
  opt_releaseKeysFunction :: bool
  opt_beforePressKey :: bool
  opt_afterPressKey :: bool
  opt_beforeReleaseKeys :: bool
  opt_afterReleaseKeys :: bool
  opt_enableDebug :: bool

record joystick =
  joystickRadius :: real
  dragging :: bool
  pressKeyFunction :: bool
  releaseKeysFunction :: bool
  beforePressKey :: bool
  afterPressKey :: bool
  enableDebug :: bool
  beforeReleaseKeys :: bool
  afterReleaseKeys :: bool
  initialHandlePosition :: "real \<times> real"
  handle_style_left :: "css_length option"
  handle_style_top :: "css_length option"
  joystick_style_cursor :: "string option"
  effects :: "effect list"

datatype event =
    MouseDown
  | TouchStart
  | MouseUp
  | TouchEnd
  | MouseMove real real real real
  | TouchMove "(real \<times> real) list" real real
  | MouseEnter
  | MouseLeave

record js_math =
  Math_sqrt :: "real \<Rightarrow> real"
  Math_pow :: "real \<Rightarrow> real \<Rightarrow> real"
  Math_atan2 :: "real \<Rightarrow> real \<Rightarrow> real"
  Math_cos :: "real \<Rightarrow> real"
  Math_sin :: "real \<Rightarrow> real"

section \<open>Double-precision arithmetic\<close>

text \<open>
  The binade of a nonzero real is the exponent of the power of two at or below its
  magnitude, and not less than \<open>-1022\<close>, where the subnormal numbers begin. Doubles of a
  binade are the integer multiples of its \<open>ulp\<close>, 52 binary places further down.
  \<open>fl\<close> rounds to the nearest such multiple, and to the even one of two nearest.
\<close>

definition binade :: "real \<Rightarrow> int" where
  "binade x = max \<lfloor>log 2 \<bar>x\<bar>\<rfloor> (- 1022)"

definition ulp :: "real \<Rightarrow> real" where
  "ulp x = 2 powr real_of_int (binade x - 52)"

definition round_even :: "real \<Rightarrow> int" where
  "round_even q =
     (let n = \<lfloor>q\<rfloor>
      in if q - real_of_int n < 1 / 2 then n
         else if 1 / 2 < q - real_of_int n then n + 1
         else if even n then n else n + 1)"

definition fl :: "real \<Rightarrow> real" where
  "fl x = (if x = 0 then 0 else real_of_int (round_even (x / ulp x)) * ulp x)"

text \<open>Half the distance between the two smallest positive doubles.\<close>

definition eta :: real where
  "eta = 1 / 2 ^ 1075"

text \<open>
  \<open>a / b\<close> on finite doubles: the rounded quotient; a zero divisor gives an infinity of the
  sign of \<open>a\<close>, and \<open>0 / 0\<close> is NaN. (The divisor of the class is \<open>offsetWidth / 2\<close>, never a
  negative zero.)
\<close>

definition js_div :: "real \<Rightarrow> real \<Rightarrow> jsnum" where
  "js_div a b =
     (if b \<noteq> 0 then Num (fl (a / b))
      else if 0 < a then PosInfinity
      else if a < 0 then NegInfinity
      else NaN)"

text \<open>\<open>d < c\<close> and \<open>d > c\<close> against a finite constant \<open>c\<close>: false on NaN.\<close>

fun js_lt :: "jsnum \<Rightarrow> real \<Rightarrow> bool" where
  "js_lt (Num a) c = (a < c)"
| "js_lt NegInfinity c = True"
| "js_lt PosInfinity c = False"
| "js_lt NaN c = False"

fun js_gt :: "jsnum \<Rightarrow> real \<Rightarrow> bool" where
  "js_gt (Num a) c = (c < a)"
| "js_gt PosInfinity c = True"
| "js_gt NegInfinity c = False"
| "js_gt NaN c = False"

section \<open>The Math object\<close>

text \<open>
  The exact two-argument arctangent: the angle of the point \<open>(x, y)\<close> in \<open>(-\<pi>, \<pi>]\<close>, and
  \<open>0\<close> at the origin. It is what \<open>Math.atan2(y, x)\<close> approximates.
\<close>

definition atan2 :: "real \<Rightarrow> real \<Rightarrow> real" where
  "atan2 y x =
     (if 0 < x then arctan (y / x)
      else if x < 0 then (if 0 \<le> y then arctan (y / x) + pi else arctan (y / x) - pi)
      else if 0 < y then pi / 2
      else if y < 0 then - (pi / 2)
      else 0)"

text \<open>
  A \<open>Math\<close> object at its best: every function returns the double nearest the exact
  value (\<open>Math.pow\<close> for a natural exponent).
\<close>

definition nearest_math :: js_math where
  "nearest_math = \<lparr>
     Math_sqrt = (\<lambda>w. fl (sqrt w)),
     Math_pow = (\<lambda>a b. fl (a ^ nat \<lfloor>b\<rfloor>)),
     Math_atan2 = (\<lambda>y x. fl (atan2 y x)),
     Math_cos = (\<lambda>t. fl (cos t)),
     Math_sin = (\<lambda>t. fl (sin t)) \<rparr>"

text \<open>
  What the engines in use guarantee, and more loosely than they do: cosine and sine within
  \<open>2\<^sup>-\<^sup>5\<^sup>2\<close>, the angle within \<open>2\<^sup>-\<^sup>5\<^sup>0\<close>, squares and square roots within one part in \<open>2\<^sup>5\<^sup>2\<close>
  (and the underflow threshold), squares not negative.
\<close>

definition accurate :: "js_math \<Rightarrow> bool" where
  "accurate M \<longleftrightarrow>
     (\<forall>t. \<bar>Math_cos M t - cos t\<bar> \<le> 1 / 2 ^ 52) \<and>
     (\<forall>t. \<bar>Math_sin M t - sin t\<bar> \<le> 1 / 2 ^ 52) \<and>
     (\<forall>y x. \<bar>Math_atan2 M y x - atan2 y x\<bar> \<le> 1 / 2 ^ 50) \<and>
     (\<forall>v. 0 \<le> Math_pow M v 2 \<and> \<bar>Math_pow M v 2 - v\<^sup>2\<bar> \<le> v\<^sup>2 / 2 ^ 52 + 2 * eta) \<and>
     (\<forall>w. 0 \<le> w \<longrightarrow> \<bar>Math_sqrt M w - sqrt w\<bar> \<le> sqrt w / 2 ^ 52 + 2 * eta)"

section \<open>The class\<close>

subsection \<open>Constructor\<close>

text \<open>
  The constructor looks the parent up with \<open>document.querySelector\<close> (\<open>parent_found\<close>:
  whether it returned an element; \<open>appendChild\<close> on \<open>null\<close> is a TypeError), appends the
  new elements and reads the track's \<open>offsetWidth\<close>, a non-negative integer.
\<close>

definition constructor :: "options \<Rightarrow> bool \<Rightarrow> nat \<Rightarrow> error + joystick" where
  "constructor opts parent_found offsetWidth =
     (if \<not> parent_found then Inl TypeError
      else Inr \<lparr>
        joystickRadius = fl (real offsetWidth / 2),
        dragging = False,
        pressKeyFunction = opt_pressKeyFunction opts,
        releaseKeysFunction = opt_releaseKeysFunction opts,
        beforePressKey = opt_beforePressKey opts,
        afterPressKey = opt_afterPressKey opts,
        enableDebug = opt_enableDebug opts,
        beforeReleaseKeys = opt_beforeReleaseKeys opts,
        afterReleaseKeys = opt_afterReleaseKeys opts,
        initialHandlePosition = (0, 0),
        handle_style_left = None,
        handle_style_top = None,
        joystick_style_cursor = None,
        effects = [] \<rparr>)"

subsection \<open>Press and release emission\<close>

definition emit :: "effect \<Rightarrow> joystick \<Rightarrow> joystick" where
  "emit e s = s\<lparr>effects := effects s @ [e]\<rparr>"

text \<open>The \<open>switch\<close> of \<open>pressKey\<close>: the key name and key code of the synthesized event.\<close>

definition eventKey :: "string \<Rightarrow> (string \<times> nat) option" where
  "eventKey key =
     (if key = ''up'' then Some (''ArrowUp'', 38)
      else if key = ''down'' then Some (''ArrowDown'', 40)
      else if key = ''left'' then Some (''ArrowLeft'', 37)
      else if key = ''right'' then Some (''ArrowRight'', 39)
      else None)"

definition pressKey :: "string \<Rightarrow> joystick \<Rightarrow> joystick" where
  "pressKey key s =
     (let s1 = (if enableDebug s then emit (ConsoleLog (''Pressing the key: '' @ key)) s else s);
          s2 = (if beforePressKey s1 then emit (CallBeforePressKey key) s1 else s1);
          s3 = (if pressKeyFunction s2 then emit (CallPressKeyFunction key) s2
                else (case eventKey key of
                        Some (eventKeyPress, eventKeyCode) \<Rightarrow>
                          emit (DispatchKeyboardEvent ''keydown'' eventKeyPress eventKeyCode) s2
                      | None \<Rightarrow> s2))
      in (if afterPressKey s3 then emit (CallAfterPressKey key) s3 else s3))"

definition releaseKeys :: "joystick \<Rightarrow> joystick" where
  "releaseKeys s =
     (let s1 = (if enableDebug s then emit (ConsoleLog ''Releasing all keys'') s else s);
          s2 = (if beforeReleaseKeys s1 then emit CallBeforeReleaseKeys s1 else s1);
          s3 = (if releaseKeysFunction s2 then emit CallReleaseKeysFunction s2 else s2)
      in (if afterReleaseKeys s3 then emit CallAfterReleaseKeys s3 else s3))"

subsection \<open>Direction mapping\<close>

definition simulateKeypress :: "jsnum \<Rightarrow> jsnum \<Rightarrow> joystick \<Rightarrow> joystick" where
  "simulateKeypress directionX directionY s =
     (let keyUp = js_lt directionY (- 0.2);
          keyDown = js_gt directionY 0.2;
          keyLeft = js_lt directionX (- 0.2);
          keyRight = js_gt directionX 0.2
      in if keyUp then pressKey ''up'' s
         else if keyDown then pressKey ''down'' s
         else if keyLeft then pressKey ''left'' s
         else if keyRight then pressKey ''right'' s
         else releaseKeys s)"

subsection \<open>Handle placement\<close>

definition handlePosition :: "js_math \<Rightarrow> real \<Rightarrow> real \<Rightarrow> joystick \<Rightarrow> joystick" where
  "handlePosition M x y s =
     (let distance = Math_sqrt M (fl (Math_pow M (fl (x - joystickRadius s)) 2
                                      + Math_pow M (fl (y - joystickRadius s)) 2));
          angle = Math_atan2 M (fl (y - joystickRadius s)) (fl (x - joystickRadius s));
          s1 = (if distance \<le> joystickRadius s
                then s\<lparr>handle_style_left := Some (Px x), handle_style_top := Some (Px y)\<rparr>
                else (let newX = fl (fl (Math_cos M angle * joystickRadius s) + joystickRadius s);
                          newY = fl (fl (Math_sin M angle * joystickRadius s) + joystickRadius s)
                      in s\<lparr>handle_style_left := Some (Px newX),
                            handle_style_top := Some (Px newY)\<rparr>));
          directionX = js_div (fl (x - joystickRadius s1)) (joystickRadius s1);
          directionY = js_div (fl (y - joystickRadius s1)) (joystickRadius s1)
      in simulateKeypress directionX directionY s1)"

subsection \<open>Event handlers\<close>

definition handleMouseDown :: "joystick \<Rightarrow> joystick" where
  "handleMouseDown s = s\<lparr>dragging := True\<rparr>"

definition handleTouchStart :: "joystick \<Rightarrow> joystick" where
  "handleTouchStart s = emit PreventDefault (s\<lparr>dragging := True\<rparr>)"

definition handleMouseUp :: "joystick \<Rightarrow> joystick" where
  "handleMouseUp s =
     releaseKeys (s\<lparr>dragging := False,
                     handle_style_left := Some (Percent 50),
                     handle_style_top := Some (Percent 50)\<rparr>)"

definition handleTouchEnd :: "joystick \<Rightarrow> joystick" where
  "handleTouchEnd s =
     releaseKeys (s\<lparr>dragging := False,
                     handle_style_left := Some (Percent 50),
                     handle_style_top := Some (Percent 50)\<rparr>)"

text \<open>
  A move event carries the pointer's client coordinates; \<open>rect_left\<close> and \<open>rect_top\<close>
  are what \<open>getBoundingClientRect()\<close> of the track returns at that moment.
\<close>

definition handleMouseMove ::
    "js_math \<Rightarrow> real \<Rightarrow> real \<Rightarrow> real \<Rightarrow> real \<Rightarrow> joystick \<Rightarrow> joystick" where
  "handleMouseMove M clientX clientY rect_left rect_top s =
     (if dragging s
      then (let x = fl (clientX - rect_left); y = fl (clientY - rect_top)
            in handlePosition M x y s)
      else s)"

text \<open>\<open>e.touches[0].clientX\<close> on an empty touch list reads a property of \<open>undefined\<close>.\<close>

definition handleTouchMove ::
    "js_math \<Rightarrow> (real \<times> real) list \<Rightarrow> real \<Rightarrow> real \<Rightarrow> joystick \<Rightarrow> error + joystick" where
  "handleTouchMove M touches rect_left rect_top s =
     (if dragging s
      then (case touches of
              [] \<Rightarrow> Inl TypeError
            | (clientX, clientY) # _ \<Rightarrow>
                (let x = fl (clientX - rect_left); y = fl (clientY - rect_top)
                 in Inr (emit PreventDefault (handlePosition M x y s))))
      else Inr s)"

definition handleMouseEnter :: "joystick \<Rightarrow> joystick" where
  "handleMouseEnter s = s\<lparr>joystick_style_cursor := Some ''move''\<rparr>"

definition handleMouseLeave :: "joystick \<Rightarrow> joystick" where
  "handleMouseLeave s =
     (if \<not> dragging s
      then releaseKeys (s\<lparr>handle_style_left := Some (Percent 50),
                           handle_style_top := Some (Percent 50)\<rparr>)
      else s)"

subsection \<open>The listeners registered by the constructor\<close>

text \<open>
  One event, delivered to the listener the constructor bound for it. An exception thrown
  by a listener is reported by the host and ends that listener only; the one throwing
  statement of the class precedes every write, so the object is as it was.
\<close>

definition dispatch :: "js_math \<Rightarrow> event \<Rightarrow> joystick \<Rightarrow> joystick" where
  "dispatch M e s =
     (case e of
        MouseDown \<Rightarrow> handleMouseDown s
      | TouchStart \<Rightarrow> handleTouchStart s
      | MouseUp \<Rightarrow> handleMouseUp s
      | TouchEnd \<Rightarrow> handleTouchEnd s
      | MouseMove clientX clientY rect_left rect_top \<Rightarrow>
          handleMouseMove M clientX clientY rect_left rect_top s
      | TouchMove touches rect_left rect_top \<Rightarrow>
          (case handleTouchMove M touches rect_left rect_top s of
             Inl _ \<Rightarrow> s
           | Inr s' \<Rightarrow> s')
      | MouseEnter \<Rightarrow> handleMouseEnter s
      | MouseLeave \<Rightarrow> handleMouseLeave s)"

fun run :: "js_math \<Rightarrow> joystick \<Rightarrow> event list \<Rightarrow> joystick" where
  "run M s [] = s"
| "run M s (e # es) = run M (dispatch M e s) es"

section \<open>Vocabulary of the specification\<close>

subsection \<open>Signals\<close>

text \<open>
  The specification speaks of one \<^emph>\<open>signal\<close> per processed direction pair: a press of a
  direction, or a release. The next two definitions follow its words (rules 1 to 5 of the
  direction mapping, first match wins); they are compared with \<open>simulateKeypress\<close> below.
\<close>

datatype signal = Press string | Release

definition emit_signal :: "signal \<Rightarrow> joystick \<Rightarrow> joystick" where
  "emit_signal g s = (case g of Press key \<Rightarrow> pressKey key s | Release \<Rightarrow> releaseKeys s)"

definition direction_signal :: "jsnum \<Rightarrow> jsnum \<Rightarrow> signal" where
  "direction_signal directionX directionY =
     (if js_lt directionY (- 0.2) then Press ''up''
      else if js_gt directionY 0.2 then Press ''down''
      else if js_lt directionX (- 0.2) then Press ''left''
      else if js_gt directionX 0.2 then Press ''right''
      else Release)"

subsection \<open>What one emission appends to the trace\<close>

text \<open>
  The diagnostic line (only in debug mode), and then, as the specification orders them:
  the pre-hook if supplied; the custom handler if supplied, otherwise (for a press) the
  synthesized key-down of the direction; the post-hook if supplied.
\<close>

definition debug_out :: "string \<Rightarrow> joystick \<Rightarrow> effect list" where
  "debug_out msg s = (if enableDebug s then [ConsoleLog msg] else [])"

definition fallback_out :: "string \<Rightarrow> effect list" where
  "fallback_out key =
     (if key = ''up'' then [DispatchKeyboardEvent ''keydown'' ''ArrowUp'' 38]
      else if key = ''down'' then [DispatchKeyboardEvent ''keydown'' ''ArrowDown'' 40]
      else if key = ''left'' then [DispatchKeyboardEvent ''keydown'' ''ArrowLeft'' 37]
      else if key = ''right'' then [DispatchKeyboardEvent ''keydown'' ''ArrowRight'' 39]
      else [])"

definition press_emission :: "string \<Rightarrow> joystick \<Rightarrow> effect list" where
  "press_emission key s =
     (if beforePressKey s then [CallBeforePressKey key] else []) @
     (if pressKeyFunction s then [CallPressKeyFunction key] else fallback_out key) @
     (if afterPressKey s then [CallAfterPressKey key] else [])"

definition release_emission :: "joystick \<Rightarrow> effect list" where
  "release_emission s =
     (if beforeReleaseKeys s then [CallBeforeReleaseKeys] else []) @
     (if releaseKeysFunction s then [CallReleaseKeysFunction] else []) @
     (if afterReleaseKeys s then [CallAfterReleaseKeys] else [])"

text \<open>Classes of effects: diagnostic lines, synthesized events that are not key-downs.\<close>

fun is_diagnostic :: "effect \<Rightarrow> bool" where
  "is_diagnostic (ConsoleLog msg) = True"
| "is_diagnostic (CallBeforePressKey key) = False"
| "is_diagnostic (CallPressKeyFunction key) = False"
| "is_diagnostic (DispatchKeyboardEvent ty key code) = False"
| "is_diagnostic (CallAfterPressKey key) = False"
| "is_diagnostic CallBeforeReleaseKeys = False"
| "is_diagnostic CallReleaseKeysFunction = False"
| "is_diagnostic CallAfterReleaseKeys = False"
| "is_diagnostic PreventDefault = False"

fun is_other_key_event :: "effect \<Rightarrow> bool" where
  "is_other_key_event (DispatchKeyboardEvent ty key code) = (ty \<noteq> ''keydown'')"
| "is_other_key_event (ConsoleLog msg) = False"
| "is_other_key_event (CallBeforePressKey key) = False"
| "is_other_key_event (CallPressKeyFunction key) = False"
| "is_other_key_event (CallAfterPressKey key) = False"
| "is_other_key_event CallBeforeReleaseKeys = False"
| "is_other_key_event CallReleaseKeysFunction = False"
| "is_other_key_event CallAfterReleaseKeys = False"
| "is_other_key_event PreventDefault = False"

fun is_call_or_key_down :: "effect \<Rightarrow> bool" where
  "is_call_or_key_down (ConsoleLog msg) = False"
| "is_call_or_key_down (CallBeforePressKey key) = True"
| "is_call_or_key_down (CallPressKeyFunction key) = True"
| "is_call_or_key_down (DispatchKeyboardEvent ty key code) = (ty = ''keydown'')"
| "is_call_or_key_down (CallAfterPressKey key) = True"
| "is_call_or_key_down CallBeforeReleaseKeys = True"
| "is_call_or_key_down CallReleaseKeysFunction = True"
| "is_call_or_key_down CallAfterReleaseKeys = True"
| "is_call_or_key_down PreventDefault = False"

subsection \<open>Where the handle is\<close>

text \<open>
  The handle is positioned inside the track element, whose width is
  \<open>offsetWidth = 2 * joystickRadius\<close>; the class treats the track as a circle and uses the
  same radius on both axes. A pixel length is itself; a percentage is that share of the
  track's extent, so \<open>'50%'\<close> is the centre \<open>(joystickRadius, joystickRadius)\<close>. Before
  the class first writes the two properties the handle is where the host's stylesheet
  puts it, which the class does not know: \<open>None\<close>. These are the positions the written
  numbers denote, measured exactly.
\<close>

fun resolve :: "real \<Rightarrow> css_length \<Rightarrow> real" where
  "resolve r (Px v) = v"
| "resolve r (Percent p) = p / 100 * (2 * r)"

definition handle_xy :: "joystick \<Rightarrow> (real \<times> real) option" where
  "handle_xy s =
     (case handle_style_left s of
        None \<Rightarrow> None
      | Some l \<Rightarrow>
          (case handle_style_top s of
             None \<Rightarrow> None
           | Some t \<Rightarrow> Some (resolve (joystickRadius s) l, resolve (joystickRadius s) t)))"

definition handle_offset :: "joystick \<Rightarrow> real option" where
  "handle_offset s =
     (case handle_xy s of
        None \<Rightarrow> None
      | Some (hx, hy) \<Rightarrow> Some (sqrt ((hx - joystickRadius s)\<^sup>2 + (hy - joystickRadius s)\<^sup>2)))"

text \<open>
  The clamping invariant up to rounding: the offset exceeds the radius by at most one
  part in \<open>2\<^sup>4\<^sup>9\<close> of it, and a quantity below every positive double's square root.
\<close>

definition slack :: "real \<Rightarrow> real" where
  "slack r = r * (1 + 1 / 2 ^ 49) + 1 / 2 ^ 535"

definition placed_near_track :: "joystick \<Rightarrow> bool" where
  "placed_near_track s =
     (case handle_offset s of None \<Rightarrow> False | Some d \<Rightarrow> d \<le> slack (joystickRadius s))"

definition near_track :: "joystick \<Rightarrow> bool" where
  "near_track s =
     (case handle_offset s of None \<Rightarrow> True | Some d \<Rightarrow> d \<le> slack (joystickRadius s))"

text \<open>
  The clamping invariant as the specification words it, with no allowance for rounding.
\<close>

definition within_track :: "joystick \<Rightarrow> bool" where
  "within_track s =
     (case handle_offset s of None \<Rightarrow> True | Some d \<Rightarrow> d \<le> joystickRadius s)"

subsection \<open>Sample objects\<close>

definition no_options :: options where
  "no_options = \<lparr>
     opt_parentElement = ''#joystick-container'',
     opt_pressKeyFunction = False,
     opt_releaseKeysFunction = False,
     opt_beforePressKey = False,
     opt_afterPressKey = False,
     opt_beforeReleaseKeys = False,
     opt_afterReleaseKeys = False,
     opt_enableDebug = False \<rparr>"

definition all_options :: options where
  "all_options = \<lparr>
     opt_parentElement = ''#joystick-container'',
     opt_pressKeyFunction = True,
     opt_releaseKeysFunction = True,
     opt_beforePressKey = True,
     opt_afterPressKey = True,
     opt_beforeReleaseKeys = True,
     opt_afterReleaseKeys = True,
     opt_enableDebug = True \<rparr>"

text \<open>The objects the constructor builds for a track 200 pixels wide.\<close>

definition plain_joystick :: joystick where
  "plain_joystick = \<lparr>
     joystickRadius = 100,
     dragging = False,
     pressKeyFunction = False,
     releaseKeysFunction = False,
     beforePressKey = False,
     afterPressKey = False,
     enableDebug = False,
     beforeReleaseKeys = False,
     afterReleaseKeys = False,
     initialHandlePosition = (0, 0),
     handle_style_left = None,
     handle_style_top = None,
     joystick_style_cursor = None,
     effects = [] \<rparr>"

definition hooked_joystick :: joystick where
  "hooked_joystick = \<lparr>
     joystickRadius = 100,
     dragging = False,
     pressKeyFunction = True,
     releaseKeysFunction = True,
     beforePressKey = True,
     afterPressKey = True,
     enableDebug = True,
     beforeReleaseKeys = True,
     afterReleaseKeys = True,
     initialHandlePosition = (0, 0),
     handle_style_left = None,
     handle_style_top = None,
     joystick_style_cursor = None,
     effects = [] \<rparr>"

text \<open>The double nearest to \<open>\<pi>\<close>: what \<open>Math.atan2(0, -1)\<close> returns.\<close>

definition pi_double :: real where
  "pi_double = 884279719003555 / 2 ^ 48"

section \<open>Rounding to the nearest double\<close>

lemma ulp_pos: "0 < ulp x"
  by (simp add: ulp_def)

lemma round_even_error: "\<bar>real_of_int (round_even q) - q\<bar> \<le> 1 / 2"
  unfolding round_even_def Let_def by (auto; linarith)

lemma round_even_nearest:
  assumes "\<bar>q - real_of_int n\<bar> < 1 / 2"
  shows "round_even q = n"
proof -
  have "\<bar>real_of_int (round_even q) - real_of_int n\<bar> < 1"
    using round_even_error [of q] assms by linarith
  then have "\<bar>real_of_int (round_even q - n)\<bar> < 1" by simp
  then have "\<bar>round_even q - n\<bar> < 1"
    by (metis of_int_abs of_int_less_1_iff)
  then show ?thesis by linarith
qed

lemma round_even_nonneg: "0 \<le> q \<Longrightarrow> 0 \<le> round_even q"
  unfolding round_even_def Let_def by (auto; linarith)

lemma fl_zero: "fl 0 = 0"
  by (simp add: fl_def)

lemma fl_half_ulp: "\<bar>fl x - x\<bar> \<le> ulp x / 2"
proof (cases "x = 0")
  case True
  then show ?thesis using ulp_pos [of x] by (simp add: fl_def)
next
  case False
  have "\<bar>real_of_int (round_even (x / ulp x)) - x / ulp x\<bar> * ulp x \<le> 1 / 2 * ulp x"
    using round_even_error [of "x / ulp x"] ulp_pos [of x] by (intro mult_right_mono) auto
  moreover have "(real_of_int (round_even (x / ulp x)) - x / ulp x) * ulp x =
      real_of_int (round_even (x / ulp x)) * ulp x - x"
    using ulp_pos [of x] by (simp add: left_diff_distrib)
  then have "\<bar>real_of_int (round_even (x / ulp x)) - x / ulp x\<bar> * ulp x =
      \<bar>real_of_int (round_even (x / ulp x)) * ulp x - x\<bar>"
    using ulp_pos [of x] by (metis abs_mult abs_of_pos)
  ultimately show ?thesis using False by (simp add: fl_def)
qed

lemma ulp_le:
  assumes "x \<noteq> 0"
  shows "ulp x \<le> max (\<bar>x\<bar> / 2 ^ 52) (1 / 2 ^ 1074)"
proof (cases "- 1022 \<le> \<lfloor>log 2 \<bar>x\<bar>\<rfloor>")
  case True
  then have "binade x = \<lfloor>log 2 \<bar>x\<bar>\<rfloor>"
    unfolding binade_def by linarith
  then have "ulp x = 2 powr (real_of_int \<lfloor>log 2 \<bar>x\<bar>\<rfloor> - 52)"
    by (simp add: ulp_def)
  also have "\<dots> \<le> 2 powr (log 2 \<bar>x\<bar> - 52)"
    by (intro powr_mono) auto
  also have "\<dots> = \<bar>x\<bar> / 2 ^ 52"
    using assms by (simp add: powr_diff)
  finally show ?thesis by simp
next
  case False
  then have "binade x = - 1022"
    unfolding binade_def by linarith
  then have "ulp x = 2 powr (- 1074)"
    by (simp add: ulp_def)
  also have "\<dots> = 1 / 2 ^ 1074"
    by (simp add: powr_minus_divide)
  finally show ?thesis by simp
qed

lemma fl_error: "\<bar>fl x - x\<bar> \<le> \<bar>x\<bar> / 2 ^ 53 + eta"
proof (cases "x = 0")
  case True
  then show ?thesis by (simp add: fl_def eta_def)
next
  case False
  have "ulp x / 2 \<le> max (\<bar>x\<bar> / 2 ^ 52) (1 / 2 ^ 1074) / 2"
    using ulp_le [OF False] by simp
  also have "\<dots> \<le> \<bar>x\<bar> / 2 ^ 53 + eta"
    by (simp add: max_def eta_def)
  finally show ?thesis using fl_half_ulp [of x] by linarith
qed

lemma fl_nonneg: "0 \<le> x \<Longrightarrow> 0 \<le> fl x"
  using round_even_nonneg [of "x / ulp x"] ulp_pos [of x] by (simp add: fl_def)

lemma fl_nearest:
  assumes "x \<noteq> 0" and "\<bar>x / ulp x - real_of_int n\<bar> < 1 / 2"
  shows "fl x = real_of_int n * ulp x"
  using assms round_even_nearest [of "x / ulp x" n] by (simp add: fl_def)

lemma ulp_eval_pos:
  assumes "2 ^ n \<le> \<bar>x\<bar>" and "\<bar>x\<bar> < 2 ^ Suc n"
  shows "ulp x = 2 ^ n / 2 ^ 52"
proof -
  have "(0::real) < 2 ^ n" by simp
  then have x: "0 < \<bar>x\<bar>" using assms(1) by linarith
  have "\<lfloor>log 2 \<bar>x\<bar>\<rfloor> = int n"
    using assms x by (subst floor_log_eq_powr_iff) (auto simp: powr_realpow powr_add)
  then have "ulp x = 2 powr (real n - 52)"
    by (simp add: ulp_def binade_def)
  then show ?thesis by (simp add: powr_diff powr_realpow)
qed

lemma ulp_eval_neg:
  assumes "1 / 2 ^ n \<le> \<bar>x\<bar>" and "\<bar>x\<bar> < 2 / 2 ^ n" and "n \<le> 1022"
  shows "ulp x = 1 / 2 ^ (n + 52)"
proof -
  have "(0::real) < 1 / 2 ^ n" by simp
  then have x: "0 < \<bar>x\<bar>" using assms(1) by linarith
  have p: "2 powr real_of_int (- int n) = 1 / 2 ^ n"
    by (simp add: powr_minus_divide powr_realpow)
  have q: "2 powr real_of_int (- int n + 1) = 2 / 2 ^ n"
    by (simp add: powr_diff powr_realpow)
  have "\<lfloor>log 2 \<bar>x\<bar>\<rfloor> = - int n"
    using assms x p q by (subst floor_log_eq_powr_iff) simp_all
  then have "binade x = - int n"
    using assms(3) unfolding binade_def by linarith
  then have "ulp x = 2 powr (- real (n + 52))"
    by (simp add: ulp_def)
  also have "\<dots> = 1 / 2 ^ (n + 52)"
    by (simp only: powr_minus_divide powr_realpow)
  finally show ?thesis .
qed

lemma fl_eval_pos:
  assumes "2 ^ n \<le> \<bar>x\<bar>" and "\<bar>x\<bar> < 2 ^ Suc n"
    and "\<bar>x * 2 ^ 52 / 2 ^ n - real_of_int m\<bar> < 1 / 2"
  shows "fl x = real_of_int m * 2 ^ n / 2 ^ 52"
proof -
  have u: "ulp x = 2 ^ n / 2 ^ 52" using assms(1,2) by (rule ulp_eval_pos)
  have "(0::real) < 2 ^ n" by simp
  then have "x \<noteq> 0" using assms(1) by linarith
  then show ?thesis using fl_nearest [of x m] assms(3) by (simp add: u)
qed

lemma fl_eval_neg:
  assumes "1 / 2 ^ n \<le> \<bar>x\<bar>" and "\<bar>x\<bar> < 2 / 2 ^ n" and "n \<le> 1022"
    and "\<bar>x * 2 ^ (n + 52) - real_of_int m\<bar> < 1 / 2"
  shows "fl x = real_of_int m / 2 ^ (n + 52)"
proof -
  have u: "ulp x = 1 / 2 ^ (n + 52)" using assms(1,2,3) by (rule ulp_eval_neg)
  have "(0::real) < 1 / 2 ^ n" by simp
  then have "x \<noteq> 0" using assms(1) by linarith
  then show ?thesis using fl_nearest [of x m] assms(4) by (simp add: u)
qed

lemma eta_pos: "0 < eta"
  by (simp add: eta_def)

lemma eta_small: "eta \<le> 1 / 2 ^ 540"
proof -
  have "(2::real) ^ 540 \<le> 2 ^ 1075" by (rule power_increasing) simp_all
  then show ?thesis by (simp add: eta_def frac_le)
qed

lemma fl_lower: "x - \<bar>x\<bar> / 2 ^ 53 - eta \<le> fl x"
  using fl_error [of x] by linarith


lemma fl_integer_100: "fl 100 = 100"
proof -
  have "fl 100 = real_of_int (100 * 2 ^ 46) * 2 ^ 6 / 2 ^ 52"
    by (rule fl_eval_pos) simp_all
  then show ?thesis by simp
qed

section \<open>Basic facts\<close>

lemma constructor_plain: "constructor no_options True 200 = Inr plain_joystick"
  by (simp add: constructor_def no_options_def plain_joystick_def fl_integer_100)

lemma constructor_hooked: "constructor all_options True 200 = Inr hooked_joystick"
  by (simp add: constructor_def all_options_def hooked_joystick_def fl_integer_100)

lemma pressKey_eq:
  "pressKey key s =
     s\<lparr>effects := effects s @ debug_out (''Pressing the key: '' @ key) s @ press_emission key s\<rparr>"
  by (simp add: pressKey_def emit_def debug_out_def press_emission_def fallback_out_def
      eventKey_def Let_def)

lemma releaseKeys_eq:
  "releaseKeys s =
     s\<lparr>effects := effects s @ debug_out ''Releasing all keys'' s @ release_emission s\<rparr>"
  by (simp add: releaseKeys_def emit_def debug_out_def release_emission_def Let_def)

lemma simulateKeypress_eq:
  "simulateKeypress directionX directionY s =
     emit_signal (direction_signal directionX directionY) s"
  by (simp add: simulateKeypress_def emit_signal_def direction_signal_def Let_def)

subsection \<open>Fields an emission or an event leaves alone\<close>

lemma handle_xy_centre:
  "handle_style_left s = Some (Percent 50) \<Longrightarrow> handle_style_top s = Some (Percent 50) \<Longrightarrow>
   handle_xy s = Some (joystickRadius s, joystickRadius s)"
  by (simp add: handle_xy_def)

lemma emit_signal_frame:
  "joystickRadius (emit_signal g s) = joystickRadius s"
  "dragging (emit_signal g s) = dragging s"
  "handle_style_left (emit_signal g s) = handle_style_left s"
  "handle_style_top (emit_signal g s) = handle_style_top s"
  "enableDebug (emit_signal g s) = enableDebug s"
  by (simp_all add: emit_signal_def pressKey_eq releaseKeys_eq split: signal.splits)

lemma handlePosition_frame:
  "joystickRadius (handlePosition M x y s) = joystickRadius s"
  "dragging (handlePosition M x y s) = dragging s"
  "enableDebug (handlePosition M x y s) = enableDebug s"
  by (simp_all add: handlePosition_def simulateKeypress_eq emit_signal_frame Let_def)

lemma dispatch_frame:
  "joystickRadius (dispatch M e s) = joystickRadius s"
  "enableDebug (dispatch M e s) = enableDebug s"
  by (cases e; simp add: dispatch_def handleMouseDown_def handleTouchStart_def handleMouseUp_def
      handleTouchEnd_def handleMouseMove_def handleTouchMove_def handleMouseEnter_def
      handleMouseLeave_def emit_def releaseKeys_eq handlePosition_frame Let_def
      split: list.splits prod.splits)+

lemma run_frame:
  "joystickRadius (run M s evs) = joystickRadius s"
  "enableDebug (run M s evs) = enableDebug s"
  by (induction evs arbitrary: s; simp add: dispatch_frame)+

subsection \<open>What an emission can append\<close>

lemma emission_no_other_key_event:
  "filter is_other_key_event (press_emission key s) = []"
  "filter is_other_key_event (release_emission s) = []"
  "filter is_other_key_event (debug_out msg s) = []"
  by (simp_all add: press_emission_def release_emission_def debug_out_def fallback_out_def)

lemma emission_no_diagnostic:
  "filter is_diagnostic (press_emission key s) = []"
  "filter is_diagnostic (release_emission s) = []"
  by (simp_all add: press_emission_def release_emission_def fallback_out_def)

lemma emission_calls_only:
  "list_all is_call_or_key_down (press_emission key s)"
  "list_all is_call_or_key_down (release_emission s)"
  by (simp_all add: press_emission_def release_emission_def fallback_out_def)

lemma debug_out_off: "\<not> enableDebug s \<Longrightarrow> debug_out msg s = []"
  by (simp add: debug_out_def)

lemma emit_signal_other_key_event:
  "filter is_other_key_event (effects (emit_signal g s)) = filter is_other_key_event (effects s)"
  by (cases g) (simp_all add: emit_signal_def pressKey_eq releaseKeys_eq emission_no_other_key_event)

lemma emit_signal_diagnostic:
  "\<not> enableDebug s \<Longrightarrow>
   filter is_diagnostic (effects (emit_signal g s)) = filter is_diagnostic (effects s)"
  by (cases g) (simp_all add: emit_signal_def pressKey_eq releaseKeys_eq emission_no_diagnostic
      debug_out_off)

lemma handlePosition_other_key_event:
  "filter is_other_key_event (effects (handlePosition M x y s)) =
   filter is_other_key_event (effects s)"
  by (simp add: handlePosition_def simulateKeypress_eq emit_signal_other_key_event Let_def)

lemma handlePosition_diagnostic:
  "\<not> enableDebug s \<Longrightarrow>
   filter is_diagnostic (effects (handlePosition M x y s)) = filter is_diagnostic (effects s)"
  by (simp add: handlePosition_def simulateKeypress_eq emit_signal_diagnostic Let_def)

lemma dispatch_other_key_event:
  "filter is_other_key_event (effects (dispatch M e s)) = filter is_other_key_event (effects s)"
  by (cases e; simp add: dispatch_def handleMouseDown_def handleTouchStart_def handleMouseUp_def
      handleTouchEnd_def handleMouseMove_def handleTouchMove_def handleMouseEnter_def
      handleMouseLeave_def emit_def releaseKeys_eq handlePosition_other_key_event
      emission_no_other_key_event Let_def split: list.splits prod.splits)+

lemma dispatch_diagnostic:
  "\<not> enableDebug s \<Longrightarrow>
   filter is_diagnostic (effects (dispatch M e s)) = filter is_diagnostic (effects s)"
  by (cases e; simp add: dispatch_def handleMouseDown_def handleTouchStart_def handleMouseUp_def
      handleTouchEnd_def handleMouseMove_def handleTouchMove_def handleMouseEnter_def
      handleMouseLeave_def emit_def releaseKeys_eq handlePosition_diagnostic
      emission_no_diagnostic debug_out_off Let_def split: list.splits prod.splits)+

lemma run_other_key_event:
  "filter is_other_key_event (effects (run M s evs)) = filter is_other_key_event (effects s)"
  by (induction evs arbitrary: s) (simp_all add: dispatch_other_key_event)

lemma run_diagnostic:
  "\<not> enableDebug s \<Longrightarrow>
   filter is_diagnostic (effects (run M s evs)) = filter is_diagnostic (effects s)"
  by (induction evs arbitrary: s) (simp_all add: dispatch_diagnostic dispatch_frame)

section \<open>Rounding errors of the clamp\<close>

lemma p53: "(2::real) ^ 53 = 9007199254740992"
  by simp

lemma p52: "(2::real) ^ 52 = 4503599627370496"
  by simp

lemma clamp_coordinate:
  assumes r: "0 \<le> r" and c: "\<bar>c\<bar> \<le> 2"
  shows "\<bar>fl (fl (c * r) + r) - (r + c * r)\<bar> \<le> 6 * r / 2 ^ 53 + 3 * eta"
proof -
  have cr: "\<bar>c * r\<bar> \<le> 2 * r"
    using mult_mono [of "\<bar>c\<bar>" 2 "\<bar>r\<bar>" r] r c by (simp add: abs_mult)
  have a: "\<bar>fl (c * r) - c * r\<bar> \<le> \<bar>c * r\<bar> / 2 ^ 53 + eta"
    by (rule fl_error)
  have b: "\<bar>fl (fl (c * r) + r) - (fl (c * r) + r)\<bar> \<le> \<bar>fl (c * r) + r\<bar> / 2 ^ 53 + eta"
    by (rule fl_error)
  have "\<bar>fl (c * r) + r\<bar> \<le> 4 * r + eta"
    using a cr r unfolding p53 by argo
  then have "\<bar>fl (c * r) + r\<bar> / 2 ^ 53 \<le> (4 * r + eta) / 2 ^ 53"
    by (simp add: divide_right_mono)
  then have b': "\<bar>fl (fl (c * r) + r) - (fl (c * r) + r)\<bar> \<le> 4 * r / 2 ^ 53 + 2 * eta"
    using b eta_pos unfolding p53 by argo
  have a': "\<bar>fl (c * r) - c * r\<bar> \<le> 2 * r / 2 ^ 53 + eta"
    using a cr unfolding p53 by argo
  have "\<bar>fl (fl (c * r) + r) - (r + c * r)\<bar> \<le>
      \<bar>fl (fl (c * r) + r) - (fl (c * r) + r)\<bar> + \<bar>fl (c * r) - c * r\<bar>"
    by linarith
  then show ?thesis
    using a' b' unfolding p53 by argo
qed

lemma norm_triangle:
  fixes a b c d :: real
  shows "sqrt ((a + c)\<^sup>2 + (b + d)\<^sup>2) \<le> sqrt (a\<^sup>2 + b\<^sup>2) + \<bar>c\<bar> + \<bar>d\<bar>"
proof -
  have "sqrt ((a + c)\<^sup>2 + (b + d)\<^sup>2) \<le> sqrt (a\<^sup>2 + b\<^sup>2) + sqrt (c\<^sup>2 + d\<^sup>2)"
    by (rule real_sqrt_sum_squares_triangle_ineq)
  moreover have "sqrt (c\<^sup>2 + d\<^sup>2) \<le> \<bar>c\<bar> + \<bar>d\<bar>"
    by (rule sqrt_sum_squares_le_sum_abs)
  ultimately show ?thesis by linarith
qed

lemma unit_vector_error:
  fixes c s t :: real
  assumes "\<bar>c - cos t\<bar> \<le> 1 / 2 ^ 52" and "\<bar>s - sin t\<bar> \<le> 1 / 2 ^ 52"
  shows "sqrt (c\<^sup>2 + s\<^sup>2) \<le> 1 + 4 / 2 ^ 53"
proof -
  have "sqrt ((cos t + (c - cos t))\<^sup>2 + (sin t + (s - sin t))\<^sup>2) \<le>
      sqrt ((cos t)\<^sup>2 + (sin t)\<^sup>2) + \<bar>c - cos t\<bar> + \<bar>s - sin t\<bar>"
    by (rule norm_triangle)
  then show ?thesis using assms by simp
qed

lemma clamp_offset:
  assumes r: "0 \<le> r"
    and c: "\<bar>c - cos t\<bar> \<le> 1 / 2 ^ 52" and s: "\<bar>s - sin t\<bar> \<le> 1 / 2 ^ 52"
  shows "sqrt ((fl (fl (c * r) + r) - r)\<^sup>2 + (fl (fl (s * r) + r) - r)\<^sup>2)
      \<le> r * (1 + 16 / 2 ^ 53) + 6 * eta"
proof -
  have c2: "\<bar>c\<bar> \<le> 2" using c abs_cos_le_one [of t] unfolding p52 by argo
  have s2: "\<bar>s\<bar> \<le> 2" using s abs_sin_le_one [of t] unfolding p52 by argo
  define ex where "ex = fl (fl (c * r) + r) - (r + c * r)"
  define ey where "ey = fl (fl (s * r) + r) - (r + s * r)"
  have ex: "\<bar>ex\<bar> \<le> 6 * r / 2 ^ 53 + 3 * eta"
    unfolding ex_def by (rule clamp_coordinate [OF r c2])
  have ey: "\<bar>ey\<bar> \<le> 6 * r / 2 ^ 53 + 3 * eta"
    unfolding ey_def by (rule clamp_coordinate [OF r s2])
  have "sqrt ((c * r + ex)\<^sup>2 + (s * r + ey)\<^sup>2) \<le> sqrt ((c * r)\<^sup>2 + (s * r)\<^sup>2) + \<bar>ex\<bar> + \<bar>ey\<bar>"
    by (rule norm_triangle)
  moreover have "sqrt ((c * r)\<^sup>2 + (s * r)\<^sup>2) = sqrt (c\<^sup>2 + s\<^sup>2) * r"
  proof -
    have "(c * r)\<^sup>2 + (s * r)\<^sup>2 = (c\<^sup>2 + s\<^sup>2) * r\<^sup>2"
      by (simp add: power_mult_distrib distrib_right)
    then show ?thesis using r by (simp add: real_sqrt_mult)
  qed
  moreover have "sqrt (c\<^sup>2 + s\<^sup>2) * r \<le> (1 + 4 / 2 ^ 53) * r"
    using unit_vector_error [OF c s] r by (rule mult_right_mono)
  moreover have "fl (fl (c * r) + r) - r = c * r + ex" "fl (fl (s * r) + r) - r = s * r + ey"
    by (simp_all add: ex_def ey_def)
  ultimately show ?thesis using ex ey by (simp add: algebra_simps)
qed

section \<open>Rounding errors of the distance\<close>

lemma scale_back:
  fixes z R :: real
  assumes "z - z / 2 ^ 52 \<le> R" and "0 \<le> z"
  shows "z \<le> R * (1 + 2 / 2 ^ 52)"
  using assms unfolding p52 by (simp add: algebra_simps)

lemma scale_back53:
  fixes z R :: real
  assumes "z - 2 * z / 2 ^ 53 \<le> R" and "0 \<le> z"
  shows "z \<le> R * (1 + 2 / 2 ^ 52)"
  using assms unfolding p52 p53 by (simp add: algebra_simps)

lemma eta8: "8 * eta = (1 / 2 ^ 536)\<^sup>2"
  by (simp add: eta_def power_divide flip: power_mult)

lemma inside_offset:
  assumes acc: "accurate M" and r: "0 \<le> r"
    and d: "Math_sqrt M (fl (Math_pow M (fl a) 2 + Math_pow M (fl b) 2)) \<le> r"
  shows "sqrt (a\<^sup>2 + b\<^sup>2) \<le> slack r"
proof -
  define pa where "pa = Math_pow M (fl a) 2"
  define pb where "pb = Math_pow M (fl b) 2"
  define S where "S = fl (pa + pb)"
  define z where "z = sqrt S"
  define T where "T = sqrt (a\<^sup>2 + b\<^sup>2)"
  define xa where "xa = (fl a)\<^sup>2"
  define xb where "xb = (fl b)\<^sup>2"
  define B where "B = (r + 2 * eta) * (1 + 2 / 2 ^ 52)"
  define C where "C = B * (1 + 2 / 2 ^ 52) + 1 / 2 ^ 536"
  have pa: "0 \<le> pa" "\<bar>pa - xa\<bar> \<le> xa / 2 ^ 52 + 2 * eta"
    using acc by (simp_all add: accurate_def pa_def xa_def)
  have pb: "0 \<le> pb" "\<bar>pb - xb\<bar> \<le> xb / 2 ^ 52 + 2 * eta"
    using acc by (simp_all add: accurate_def pb_def xb_def)
  have S0: "0 \<le> S" unfolding S_def using pa(1) pb(1) by (intro fl_nonneg) simp
  have S: "\<bar>S - (pa + pb)\<bar> \<le> (pa + pb) / 2 ^ 53 + eta"
    using fl_error [of "pa + pb"] pa(1) pb(1) by (simp add: S_def)
  have z0: "0 \<le> z" by (simp add: z_def S0)
  have "\<bar>Math_sqrt M S - z\<bar> \<le> z / 2 ^ 52 + 2 * eta"
    using acc S0 by (simp add: accurate_def z_def)
  moreover have "Math_sqrt M S \<le> r"
    using d by (simp add: S_def pa_def pb_def)
  ultimately have "z - z / 2 ^ 52 \<le> r + 2 * eta"
    unfolding p52 by argo
  then have zB: "z \<le> B" unfolding B_def using z0 by (rule scale_back)
  have B0: "0 \<le> B" using z0 zB by linarith
  have "S = z\<^sup>2" using S0 by (simp add: z_def)
  also have "\<dots> \<le> B\<^sup>2" using zB z0 by (rule power_mono)
  finally have SB: "S \<le> B\<^sup>2" .
  have X0: "0 \<le> xa" "0 \<le> xb" by (simp_all add: xa_def xb_def)
  have "xa + xb \<le> S * (1 + 4 / 2 ^ 52) + 8 * eta"
    using pa pb S S0 X0 eta_pos unfolding p52 p53 by argo
  also have "\<dots> \<le> B\<^sup>2 * (1 + 4 / 2 ^ 52) + 8 * eta"
    using SB by simp
  also have "\<dots> \<le> C\<^sup>2"
  proof -
    have "C\<^sup>2 = (B * (1 + 2 / 2 ^ 52))\<^sup>2 + (1 / 2 ^ 536)\<^sup>2
        + 2 * (B * (1 + 2 / 2 ^ 52)) * (1 / 2 ^ 536)"
      unfolding C_def by (rule power2_sum)
    moreover have "0 \<le> 2 * (B * (1 + 2 / 2 ^ 52)) * (1 / 2 ^ 536)"
      using B0 by simp
    moreover have "B\<^sup>2 * (1 + 4 / 2 ^ 52) \<le> (B * (1 + 2 / 2 ^ 52))\<^sup>2"
    proof -
      have "(1 + 4 / 2 ^ 52 :: real) \<le> (1 + 2 / 2 ^ 52)\<^sup>2" by (simp add: power2_eq_square)
      then have "B\<^sup>2 * (1 + 4 / 2 ^ 52) \<le> B\<^sup>2 * (1 + 2 / 2 ^ 52)\<^sup>2"
        by (intro mult_left_mono) simp_all
      then show ?thesis by (simp only: power_mult_distrib)
    qed
    ultimately show ?thesis using eta8 by linarith
  qed
  finally have XC: "xa + xb \<le> C\<^sup>2" .
  have C0: "0 \<le> C" unfolding C_def using B0 by simp
  have "sqrt (xa + xb) \<le> sqrt (C\<^sup>2)" using XC by (rule real_sqrt_le_mono)
  then have Tf: "sqrt (xa + xb) \<le> C" using C0 by simp
  have "sqrt ((fl a + (a - fl a))\<^sup>2 + (fl b + (b - fl b))\<^sup>2) \<le>
      sqrt ((fl a)\<^sup>2 + (fl b)\<^sup>2) + \<bar>a - fl a\<bar> + \<bar>b - fl b\<bar>"
    by (rule norm_triangle)
  then have t1: "T \<le> sqrt (xa + xb) + \<bar>a - fl a\<bar> + \<bar>b - fl b\<bar>"
    by (simp add: T_def xa_def xb_def)
  have aT: "\<bar>a\<bar> \<le> T" "\<bar>b\<bar> \<le> T" by (simp_all add: T_def)
  have ea: "\<bar>a - fl a\<bar> \<le> T / 2 ^ 53 + eta"
    using fl_error [of a] aT(1) unfolding p53 by argo
  have eb: "\<bar>b - fl b\<bar> \<le> T / 2 ^ 53 + eta"
    using fl_error [of b] aT(2) unfolding p53 by argo
  have "T - 2 * T / 2 ^ 53 \<le> C + 2 * eta"
    using t1 Tf ea eb unfolding p53 by argo
  moreover have T0: "0 \<le> T" by (simp add: T_def)
  ultimately have "T \<le> (C + 2 * eta) * (1 + 2 / 2 ^ 52)" by (rule scale_back53)
  also have "\<dots> \<le> slack r"
  proof -
    have k: "(1 + 2 / 2 ^ 52) * ((1 + 2 / 2 ^ 52) * (1 + 2 / 2 ^ 52)) \<le> (1 + 1 / 2 ^ 49 :: real)"
      by simp
    have "r * ((1 + 2 / 2 ^ 52) * ((1 + 2 / 2 ^ 52) * (1 + 2 / 2 ^ 52))) \<le> r * (1 + 1 / 2 ^ 49)"
      using k r by (rule mult_left_mono)
    moreover have "2 * eta * ((1 + 2 / 2 ^ 52) * ((1 + 2 / 2 ^ 52) * (1 + 2 / 2 ^ 52)))
        + 2 * eta * (1 + 2 / 2 ^ 52) \<le> 8 * eta"
      using eta_pos by simp
    moreover have "8 * eta \<le> 8 * (1 / 2 ^ 540)"
      using eta_small by simp
    moreover have "8 * (1 / 2 ^ 540) + 1 / 2 ^ 536 * (1 + 2 / 2 ^ 52) \<le> (1 / 2 ^ 535 :: real)"
      by simp
    moreover have "(C + 2 * eta) * (1 + 2 / 2 ^ 52) =
        r * ((1 + 2 / 2 ^ 52) * ((1 + 2 / 2 ^ 52) * (1 + 2 / 2 ^ 52)))
        + (2 * eta * ((1 + 2 / 2 ^ 52) * ((1 + 2 / 2 ^ 52) * (1 + 2 / 2 ^ 52)))
           + 2 * eta * (1 + 2 / 2 ^ 52))
        + 1 / 2 ^ 536 * (1 + 2 / 2 ^ 52)"
      unfolding C_def B_def by (simp only: distrib_right distrib_left mult.assoc add.assoc)
    ultimately show ?thesis unfolding slack_def by linarith
  qed
  finally show ?thesis by (simp add: T_def)
qed

section \<open>Where handlePosition puts the handle\<close>

lemma handle_offset_emit_signal: "handle_offset (emit_signal g s) = handle_offset s"
  by (simp add: handle_offset_def handle_xy_def emit_signal_frame cong: option.case_cong)

lemma handle_xy_emit_signal: "handle_xy (emit_signal g s) = handle_xy s"
  by (simp add: handle_xy_def emit_signal_frame cong: option.case_cong)

lemma handlePosition_left:
  "handle_style_left (handlePosition M x y s) =
     Some (Px (if Math_sqrt M (fl (Math_pow M (fl (x - joystickRadius s)) 2
                                   + Math_pow M (fl (y - joystickRadius s)) 2)) \<le> joystickRadius s
               then x
               else fl (fl (Math_cos M (Math_atan2 M (fl (y - joystickRadius s))
                                                     (fl (x - joystickRadius s)))
                            * joystickRadius s) + joystickRadius s)))"
  by (simp add: handlePosition_def simulateKeypress_eq emit_signal_frame Let_def)

lemma handlePosition_top:
  "handle_style_top (handlePosition M x y s) =
     Some (Px (if Math_sqrt M (fl (Math_pow M (fl (x - joystickRadius s)) 2
                                   + Math_pow M (fl (y - joystickRadius s)) 2)) \<le> joystickRadius s
               then y
               else fl (fl (Math_sin M (Math_atan2 M (fl (y - joystickRadius s))
                                                     (fl (x - joystickRadius s)))
                            * joystickRadius s) + joystickRadius s)))"
  by (simp add: handlePosition_def simulateKeypress_eq emit_signal_frame Let_def)



lemma slack_clamp: "0 \<le> r \<Longrightarrow> r * (1 + 16 / 2 ^ 53) + 6 * eta \<le> slack r"
proof -
  have "6 * eta \<le> 6 * (1 / 2 ^ 540)" using eta_small by simp
  also have "\<dots> \<le> (1 / 2 ^ 535 :: real)" by simp
  finally show ?thesis by (simp add: slack_def)
qed

lemma handlePosition_offset:
  assumes acc: "accurate M" and r: "0 \<le> joystickRadius s"
  shows "\<exists>d. handle_offset (handlePosition M x y s) = Some d \<and> d \<le> slack (joystickRadius s)"
proof (cases "Math_sqrt M (fl (Math_pow M (fl (x - joystickRadius s)) 2
                               + Math_pow M (fl (y - joystickRadius s)) 2)) \<le> joystickRadius s")
  case True
  have "sqrt ((x - joystickRadius s)\<^sup>2 + (y - joystickRadius s)\<^sup>2) \<le> slack (joystickRadius s)"
    using acc r True by (rule inside_offset)
  then show ?thesis
    using True
    by (simp add: handle_offset_def handle_xy_def handlePosition_left handlePosition_top
        handlePosition_frame)
next
  case False
  define t where "t = Math_atan2 M (fl (y - joystickRadius s)) (fl (x - joystickRadius s))"
  have c: "\<bar>Math_cos M t - cos t\<bar> \<le> 1 / 2 ^ 52" and s: "\<bar>Math_sin M t - sin t\<bar> \<le> 1 / 2 ^ 52"
    using acc by (simp_all add: accurate_def)
  have "sqrt ((fl (fl (Math_cos M t * joystickRadius s) + joystickRadius s) - joystickRadius s)\<^sup>2
            + (fl (fl (Math_sin M t * joystickRadius s) + joystickRadius s) - joystickRadius s)\<^sup>2)
      \<le> slack (joystickRadius s)"
    using clamp_offset [OF r c s] slack_clamp [OF r] by linarith
  then show ?thesis
    using False
    by (simp add: handle_offset_def handle_xy_def handlePosition_left handlePosition_top
        handlePosition_frame t_def)
qed

lemma handlePosition_placed:
  "accurate M \<Longrightarrow> 0 \<le> joystickRadius s \<Longrightarrow> placed_near_track (handlePosition M x y s)"
  using handlePosition_offset [of M s x y]
  by (auto simp add: placed_near_track_def handlePosition_frame)

section \<open>The handle stays near the track\<close>

lemma placed_near_track_imp: "placed_near_track s \<Longrightarrow> near_track s"
  by (simp add: placed_near_track_def near_track_def split: option.splits)

lemma slack_nonneg: "0 \<le> r \<Longrightarrow> 0 \<le> slack r"
  by (simp add: slack_def)

lemma handle_offset_centre:
  "handle_style_left s = Some (Percent 50) \<Longrightarrow> handle_style_top s = Some (Percent 50) \<Longrightarrow>
   handle_offset s = Some 0"
  by (simp add: handle_offset_def handle_xy_def)

lemma handle_offset_cong:
  "handle_style_left s' = handle_style_left s \<Longrightarrow> handle_style_top s' = handle_style_top s \<Longrightarrow>
   joystickRadius s' = joystickRadius s \<Longrightarrow> handle_offset s' = handle_offset s"
  by (simp add: handle_offset_def handle_xy_def cong: option.case_cong)

lemma near_track_cong:
  "handle_style_left s' = handle_style_left s \<Longrightarrow> handle_style_top s' = handle_style_top s \<Longrightarrow>
   joystickRadius s' = joystickRadius s \<Longrightarrow> near_track s' = near_track s"
  by (simp add: near_track_def handle_offset_cong [of s' s] cong: option.case_cong)

lemma placed_near_track_cong:
  "handle_style_left s' = handle_style_left s \<Longrightarrow> handle_style_top s' = handle_style_top s \<Longrightarrow>
   joystickRadius s' = joystickRadius s \<Longrightarrow> placed_near_track s' = placed_near_track s"
  by (simp add: placed_near_track_def handle_offset_cong [of s' s] cong: option.case_cong)

lemma release_at_centre_near:
  assumes "0 \<le> joystickRadius s"
  shows "near_track (releaseKeys (s\<lparr>dragging := b, handle_style_left := Some (Percent 50),
                                     handle_style_top := Some (Percent 50)\<rparr>))"
    and "near_track (releaseKeys (s\<lparr>handle_style_left := Some (Percent 50),
                                     handle_style_top := Some (Percent 50)\<rparr>))"
  using assms slack_nonneg [of "joystickRadius s"]
  by (simp_all add: near_track_def handle_offset_centre releaseKeys_eq)

lemma dispatch_near_track:
  assumes acc: "accurate M" and r: "0 \<le> joystickRadius s" and w: "near_track s"
  shows "near_track (dispatch M e s)"
proof (cases e)
  case MouseDown
  then show ?thesis
    using w near_track_cong [of "s\<lparr>dragging := True\<rparr>" s]
    by (simp add: dispatch_def handleMouseDown_def)
next
  case TouchStart
  then show ?thesis
    using w near_track_cong [of "emit PreventDefault (s\<lparr>dragging := True\<rparr>)" s]
    by (simp add: dispatch_def handleTouchStart_def emit_def)
next
  case MouseUp
  then show ?thesis
    using release_at_centre_near(1) [OF r] by (simp add: dispatch_def handleMouseUp_def)
next
  case TouchEnd
  then show ?thesis
    using release_at_centre_near(1) [OF r] by (simp add: dispatch_def handleTouchEnd_def)
next
  case (MouseMove clientX clientY rect_left rect_top)
  then show ?thesis
    using w placed_near_track_imp [OF handlePosition_placed [OF acc r]]
    by (simp add: dispatch_def handleMouseMove_def Let_def)
next
  case (TouchMove touches rect_left rect_top)
  show ?thesis
  proof (cases "dragging s \<and> touches \<noteq> []")
    case False
    then show ?thesis
      using w TouchMove by (auto simp add: dispatch_def handleTouchMove_def split: list.splits)
  next
    case True
    then obtain clientX clientY ts where t: "touches = (clientX, clientY) # ts"
      by (cases touches) auto
    have "near_track (emit PreventDefault
        (handlePosition M (fl (clientX - rect_left)) (fl (clientY - rect_top)) s))"
      using placed_near_track_imp [OF handlePosition_placed [OF acc r,
            of "fl (clientX - rect_left)" "fl (clientY - rect_top)"]]
        near_track_cong [of "emit PreventDefault
            (handlePosition M (fl (clientX - rect_left)) (fl (clientY - rect_top)) s)"
          "handlePosition M (fl (clientX - rect_left)) (fl (clientY - rect_top)) s"]
      by (simp add: emit_def)
    then show ?thesis
      using True t TouchMove by (simp add: dispatch_def handleTouchMove_def Let_def)
  qed
next
  case MouseEnter
  then show ?thesis
    using w near_track_cong [of "s\<lparr>joystick_style_cursor := Some ''move''\<rparr>" s]
    by (simp add: dispatch_def handleMouseEnter_def)
next
  case MouseLeave
  then show ?thesis
    using w release_at_centre_near(2) [OF r] by (simp add: dispatch_def handleMouseLeave_def)
qed

lemma run_near_track:
  "accurate M \<Longrightarrow> 0 \<le> joystickRadius s \<Longrightarrow> near_track s \<Longrightarrow> near_track (run M s evs)"
  by (induction evs arbitrary: s) (simp_all add: dispatch_near_track dispatch_frame)

lemma constructor_near_track:
  "constructor opts parent_found offsetWidth = Inr s0 \<Longrightarrow> 0 \<le> joystickRadius s0 \<and> near_track s0"
  by (auto simp add: constructor_def near_track_def handle_offset_def handle_xy_def fl_nonneg
      split: if_splits)

lemma move_placed:
  assumes "accurate M" and "0 \<le> joystickRadius s" and "dragging s"
  shows "placed_near_track (dispatch M (MouseMove clientX clientY rect_left rect_top) s)"
    and "placed_near_track (dispatch M (TouchMove ((clientX, clientY) # ts) rect_left rect_top) s)"
proof -
  show "placed_near_track (dispatch M (MouseMove clientX clientY rect_left rect_top) s)"
    using assms by (simp add: dispatch_def handleMouseMove_def Let_def handlePosition_placed)
  have "placed_near_track (emit PreventDefault
      (handlePosition M (fl (clientX - rect_left)) (fl (clientY - rect_top)) s))"
    using handlePosition_placed [OF assms(1,2), of "fl (clientX - rect_left)" "fl (clientY - rect_top)"]
      placed_near_track_cong [of "emit PreventDefault
          (handlePosition M (fl (clientX - rect_left)) (fl (clientY - rect_top)) s)"
          "handlePosition M (fl (clientX - rect_left)) (fl (clientY - rect_top)) s"]
    by (simp add: emit_def)
  then show "placed_near_track (dispatch M (TouchMove ((clientX, clientY) # ts) rect_left rect_top) s)"
    using assms by (simp add: dispatch_def handleTouchMove_def Let_def)
qed

section \<open>The nearest Math object is accurate\<close>

lemma abs_atan2_le: "\<bar>atan2 y x\<bar> \<le> pi"
proof -
  have a: "- (pi / 2) < arctan (y / x)" "arctan (y / x) < pi / 2"
    by (rule arctan_lbound, rule arctan_ubound)
  consider (right) "0 < x" | (upper) "x < 0" "0 \<le> y" | (lower) "x < 0" "y < 0" | (axis) "x = 0"
    by linarith
  then show ?thesis
  proof cases
    case right
    then show ?thesis using a pi_gt_zero by (simp add: atan2_def abs_le_iff)
  next
    case upper
    then have "y / x \<le> 0" by (simp add: divide_nonneg_neg)
    then have "arctan (y / x) \<le> 0" by simp
    then show ?thesis using upper a pi_gt_zero by (simp add: atan2_def abs_le_iff)
  next
    case lower
    then have "0 \<le> y / x" by (simp add: divide_neg_neg less_imp_le)
    then have "0 \<le> arctan (y / x)" by simp
    then show ?thesis using lower a pi_gt_zero by (simp add: atan2_def abs_le_iff)
  next
    case axis
    then have "atan2 y x = pi / 2 \<or> atan2 y x = - (pi / 2) \<or> atan2 y x = 0"
      by (auto simp add: atan2_def)
    then show ?thesis using pi_gt_zero by argo
  qed
qed

lemma eta_le_u: "eta \<le> 1 / 2 ^ 53"
proof -
  have "(1 / 2 ^ 540 :: real) \<le> 1 / 2 ^ 53" by simp
  then show ?thesis using eta_small by linarith
qed

lemma accurate_nearest_math: "accurate nearest_math"
proof -
  have c: "\<bar>fl (cos t) - cos t\<bar> \<le> 1 / 2 ^ 52" for t
    using fl_error [of "cos t"] abs_cos_le_one [of t] eta_le_u unfolding p52 p53 by argo
  have s: "\<bar>fl (sin t) - sin t\<bar> \<le> 1 / 2 ^ 52" for t
    using fl_error [of "sin t"] abs_sin_le_one [of t] eta_le_u unfolding p52 p53 by argo
  have a: "\<bar>fl (atan2 y x) - atan2 y x\<bar> \<le> 1 / 2 ^ 50" for y x
  proof -
    have "\<bar>atan2 y x\<bar> \<le> 4" using abs_atan2_le [of y x] pi_less_4 by linarith
    then show ?thesis
      using fl_error [of "atan2 y x"] eta_le_u unfolding p53 by simp
  qed
  have p: "0 \<le> fl (v\<^sup>2) \<and> \<bar>fl (v\<^sup>2) - v\<^sup>2\<bar> \<le> v\<^sup>2 / 2 ^ 52 + 2 * eta" for v :: real
  proof -
    have "0 \<le> v\<^sup>2" by simp
    then show ?thesis
      using fl_error [of "v\<^sup>2"] fl_nonneg [of "v\<^sup>2"] eta_pos unfolding p52 p53 by simp
  qed
  have q: "\<bar>fl (sqrt w) - sqrt w\<bar> \<le> sqrt w / 2 ^ 52 + 2 * eta" if "0 \<le> w" for w
  proof -
    have "0 \<le> sqrt w" using that by simp
    then show ?thesis
      using fl_error [of "sqrt w"] eta_pos unfolding p52 p53 by simp
  qed
  show ?thesis
    using c s a p q by (simp add: accurate_def nearest_math_def)
qed

section \<open>Doubles that are exact\<close>

lemma fl_of_int:
  assumes "\<bar>m\<bar> < 2 ^ 53"
  shows "fl (real_of_int m) = real_of_int m"
proof (cases "m = 0")
  case True
  then show ?thesis by (simp add: fl_def)
next
  case False
  define n where "n = nat \<bar>m\<bar>"
  have n: "real n = \<bar>real_of_int m\<bar>" by (simp add: n_def)
  have "1 \<le> n" using False by (simp add: n_def)
  then obtain k where k: "2 ^ k \<le> n" "n < 2 ^ (k + 1)"
    using ex_power_ivl1 [of 2 n] by auto
  have "n < 2 ^ 53" using assms by (simp add: n_def nat_less_iff)
  then have "(2::nat) ^ k < 2 ^ 53" using k(1) by linarith
  then have "k < 53" using power_less_imp_less_exp [of 2 k 53] by simp
  then have k52: "k \<le> 52" by simp
  have "real (2 ^ k) \<le> real n" using k(1) by (simp only: of_nat_le_iff)
  then have lo: "2 ^ k \<le> \<bar>real_of_int m\<bar>" by (simp add: n)
  have "real n < real (2 ^ (k + 1))" using k(2) by (simp only: of_nat_less_iff)
  then have hi: "\<bar>real_of_int m\<bar> < 2 ^ Suc k" by (simp add: n)
  have p: "(2::real) ^ (52 - k) * 2 ^ k = 2 ^ 52"
    using k52 by (simp only: power_add [symmetric]) simp
  have q: "real_of_int m * 2 ^ 52 / 2 ^ k = real_of_int (m * 2 ^ (52 - k))"
  proof -
    have "real_of_int m * 2 ^ 52 / 2 ^ k = real_of_int m * (2 ^ (52 - k) * 2 ^ k) / 2 ^ k"
      by (simp only: p)
    also have "\<dots> = real_of_int m * 2 ^ (52 - k)"
      by simp
    finally show ?thesis by simp
  qed
  have "fl (real_of_int m) = real_of_int (m * 2 ^ (52 - k)) * 2 ^ k / 2 ^ 52"
  proof (rule fl_eval_pos [OF lo hi])
    show "\<bar>real_of_int m * 2 ^ 52 / 2 ^ k - real_of_int (m * 2 ^ (52 - k))\<bar> < 1 / 2"
      by (simp only: q)
  qed
  also have "\<dots> = real_of_int m * (2 ^ (52 - k) * 2 ^ k) / 2 ^ 52"
    by (simp only: of_int_mult of_int_power of_int_numeral mult.assoc)
  also have "\<dots> = real_of_int m"
    by (simp only: p) simp
  finally show ?thesis .
qed

lemma fl_numeral [simp]:
  "numeral w < (2 ^ 53 :: int) \<Longrightarrow> fl (numeral w) = numeral w"
  "numeral w < (2 ^ 53 :: int) \<Longrightarrow> fl (- numeral w) = - numeral w"
  using fl_of_int [of "numeral w"] fl_of_int [of "- numeral w"] by simp_all

lemma fl_one [simp]: "fl 1 = 1"
  using fl_of_int [of 1] by simp

lemma fl_zero' [simp]: "fl 0 = 0"
  by (simp add: fl_def)

section \<open>Sample computations\<close>

lemma fl_sample_small: "fl (1 / 2 ^ 33) = 1 / 2 ^ 33" "fl (1 / 2 ^ 66) = 1 / 2 ^ 66"
proof -
  have "fl (1 / 2 ^ 33) = real_of_int (2 ^ 52) / 2 ^ (33 + 52)"
    by (rule fl_eval_neg) simp_all
  then show "fl (1 / 2 ^ 33) = 1 / 2 ^ 33" by simp
  have "fl (1 / 2 ^ 66) = real_of_int (2 ^ 52) / 2 ^ (66 + 52)"
    by (rule fl_eval_neg) simp_all
  then show "fl (1 / 2 ^ 66) = 1 / 2 ^ 66" by simp
qed

lemma fl_sample_sum: "fl (10000 + 1 / 2 ^ 66) = 10000"
proof -
  have "fl (10000 + 1 / 2 ^ 66) = real_of_int (10000 * 2 ^ 39) * 2 ^ 13 / 2 ^ 52"
  proof (rule fl_eval_pos)
    show "2 ^ 13 \<le> \<bar>10000 + 1 / 2 ^ 66 :: real\<bar>" by simp
    show "\<bar>10000 + 1 / 2 ^ 66 :: real\<bar> < 2 ^ Suc 13" by simp
    show "\<bar>(10000 + 1 / 2 ^ 66) * 2 ^ 52 / 2 ^ 13 - real_of_int (10000 * 2 ^ 39)\<bar> < 1 / 2"
      by simp
  qed
  then show ?thesis by simp
qed

lemma fl_sample_y: "fl (100 + 1 / 2 ^ 33) = 100 + 1 / 2 ^ 33"
proof -
  have "fl (100 + 1 / 2 ^ 33) = real_of_int (100 * 2 ^ 46 + 2 ^ 13) * 2 ^ 6 / 2 ^ 52"
  proof (rule fl_eval_pos)
    show "2 ^ 6 \<le> \<bar>100 + 1 / 2 ^ 33 :: real\<bar>" by simp
    show "\<bar>100 + 1 / 2 ^ 33 :: real\<bar> < 2 ^ Suc 6" by simp
    show "\<bar>(100 + 1 / 2 ^ 33) * 2 ^ 52 / 2 ^ 6 - real_of_int (100 * 2 ^ 46 + 2 ^ 13)\<bar> < 1 / 2"
      by simp
  qed
  then show ?thesis by simp
qed

lemma nearest_math_simps:
  "Math_sqrt nearest_math w = fl (sqrt w)"
  "Math_pow nearest_math v 2 = fl (v\<^sup>2)"
  "Math_atan2 nearest_math y x = fl (atan2 y x)"
  "Math_cos nearest_math t = fl (cos t)"
  "Math_sin nearest_math t = fl (sin t)"
  by (simp_all add: nearest_math_def)

lemma grazing_distance:
  "Math_sqrt nearest_math (fl (Math_pow nearest_math (fl (200 - 100)) 2
      + Math_pow nearest_math (fl (100 + 1 / 2 ^ 33 - 100)) 2)) = 100"
proof -
  have a: "fl (200 - 100) = 100" by simp
  have b: "fl (100 + 1 / 2 ^ 33 - 100) = 1 / 2 ^ 33"
    using fl_sample_small(1) by simp
  have pa: "Math_pow nearest_math 100 2 = 10000"
    by (simp add: nearest_math_simps)
  have "(1 / 2 ^ 33 :: real)\<^sup>2 = 1 / 2 ^ 66"
    by (simp add: power_divide flip: power_mult)
  then have pb: "Math_pow nearest_math (1 / 2 ^ 33) 2 = 1 / 2 ^ 66"
    by (simp only: nearest_math_simps fl_sample_small)
  have "Math_sqrt nearest_math 10000 = 100"
    by (simp add: nearest_math_simps)
  then show ?thesis
    by (simp only: a b pa pb fl_sample_sum)
qed

lemma grazing_sample:
  assumes r: "joystickRadius s = 100"
  shows "handle_style_left (handlePosition nearest_math 200 (100 + 1 / 2 ^ 33) s) = Some (Px 200)"
    and "handle_style_top (handlePosition nearest_math 200 (100 + 1 / 2 ^ 33) s) =
      Some (Px (100 + 1 / 2 ^ 33))"
proof -
  show "handle_style_left (handlePosition nearest_math 200 (100 + 1 / 2 ^ 33) s) = Some (Px 200)"
    unfolding handlePosition_left r grazing_distance by simp
  show "handle_style_top (handlePosition nearest_math 200 (100 + 1 / 2 ^ 33) s) =
     Some (Px (100 + 1 / 2 ^ 33))"
    unfolding handlePosition_top r grazing_distance by simp
qed

lemma grazing_offset:
  assumes r: "joystickRadius s = 100"
  shows "handle_offset (handlePosition nearest_math 200 (100 + 1 / 2 ^ 33) s) =
     Some (sqrt ((200 - 100)\<^sup>2 + (100 + 1 / 2 ^ 33 - 100)\<^sup>2))"
  unfolding handle_offset_def handle_xy_def grazing_sample [OF r] handlePosition_frame r
  by simp

lemma grazing_outside:
  "100 < sqrt ((200 - 100)\<^sup>2 + (100 + 1 / 2 ^ 33 - 100)\<^sup>2)"
  by (rule real_less_rsqrt) simp

lemma grazing_move:
  "dispatch nearest_math (MouseMove 200 (100 + 1 / 2 ^ 33) 0 0) (handleMouseDown plain_joystick) =
     handlePosition nearest_math 200 (100 + 1 / 2 ^ 33) (handleMouseDown plain_joystick)"
proof -
  have "fl (200 - 0) = 200" by simp
  moreover have "fl (100 + 1 / 2 ^ 33 - 0) = 100 + 1 / 2 ^ 33"
    using fl_sample_y by simp
  ultimately show ?thesis
    by (simp only: dispatch_def event.case handleMouseMove_def Let_def)
      (simp add: handleMouseDown_def)
qed

section \<open>Rounding errors of the direction\<close>



section \<open>Cosine and sine are Lipschitz\<close>

lemma cos_lipschitz: "\<bar>cos w - cos z\<bar> \<le> \<bar>w - z\<bar>" for w z :: real
proof -
  have "\<bar>cos w - cos z\<bar> = 2 * \<bar>sin ((w + z) / 2)\<bar> * \<bar>sin ((z - w) / 2)\<bar>"
    by (simp add: cos_diff_cos abs_mult)
  also have "\<dots> \<le> 2 * 1 * \<bar>(z - w) / 2\<bar>"
    by (intro mult_mono abs_sin_x_le_abs_x) simp_all
  finally show ?thesis by simp
qed

lemma sin_lipschitz: "\<bar>sin w - sin z\<bar> \<le> \<bar>w - z\<bar>" for w z :: real
proof -
  have "\<bar>sin w - sin z\<bar> = 2 * \<bar>sin ((w - z) / 2)\<bar> * \<bar>cos ((w + z) / 2)\<bar>"
    by (simp add: sin_diff_sin abs_mult)
  also have "\<dots> \<le> 2 * \<bar>(w - z) / 2\<bar> * 1"
    by (intro mult_mono abs_sin_x_le_abs_x) simp_all
  finally show ?thesis by simp
qed

lemma cos_lower: "1 - x\<^sup>2 / 2 \<le> cos x" for x :: real
proof -
  have "\<bar>sin (x / 2)\<bar>\<^sup>2 \<le> \<bar>x / 2\<bar>\<^sup>2"
    by (intro power_mono abs_sin_x_le_abs_x) simp
  then have "(sin (x / 2))\<^sup>2 \<le> x\<^sup>2 / 4"
    by (simp add: power_divide)
  moreover have "cos x = 1 - 2 * (sin (x / 2))\<^sup>2"
    using cos_double_sin [of "x / 2"] by simp
  ultimately show ?thesis by linarith
qed

section \<open>The clamped point and the boundary circle\<close>

lemma clamp_near_boundary:
  assumes r: "0 \<le> r"
    and c: "\<bar>c - cos t\<bar> \<le> 1 / 2 ^ 52"
    and a: "\<bar>t - th\<bar> \<le> 1 / 2 ^ 50"
  shows "\<bar>fl (fl (c * r) + r) - (r + r * cos th)\<bar> \<le> r / 2 ^ 49 + 3 * eta"
proof -
  have c2: "\<bar>c\<bar> \<le> 2" using c abs_cos_le_one [of t] unfolding p52 by argo
  have e: "\<bar>fl (fl (c * r) + r) - (r + c * r)\<bar> \<le> 6 * r / 2 ^ 53 + 3 * eta"
    by (rule clamp_coordinate [OF r c2])
  have "\<bar>c - cos th\<bar> \<le> 1 / 2 ^ 52 + 1 / 2 ^ 50"
    using c a cos_lipschitz [of t th] by linarith
  then have "\<bar>c - cos th\<bar> * r \<le> (1 / 2 ^ 52 + 1 / 2 ^ 50) * r"
    using r by (rule mult_right_mono)
  moreover have "c * r - r * cos th = (c - cos th) * r"
    by (simp add: algebra_simps)
  then have "\<bar>c * r - r * cos th\<bar> = \<bar>c - cos th\<bar> * r"
    using r by (simp add: abs_mult)
  moreover have "(1 / 2 ^ 52 + 1 / 2 ^ 50) * r = 10 * r / 2 ^ 53"
    by simp
  ultimately have d: "\<bar>c * r - r * cos th\<bar> \<le> 10 * r / 2 ^ 53"
    by linarith
  have "(r / 2 ^ 49 :: real) = 16 * r / 2 ^ 53" by simp
  then show ?thesis using e d unfolding p53 by argo
qed

lemma clamp_near_boundary_sin:
  assumes r: "0 \<le> r"
    and c: "\<bar>c - sin t\<bar> \<le> 1 / 2 ^ 52"
    and a: "\<bar>t - th\<bar> \<le> 1 / 2 ^ 50"
  shows "\<bar>fl (fl (c * r) + r) - (r + r * sin th)\<bar> \<le> r / 2 ^ 49 + 3 * eta"
proof -
  have c2: "\<bar>c\<bar> \<le> 2" using c abs_sin_le_one [of t] unfolding p52 by argo
  have e: "\<bar>fl (fl (c * r) + r) - (r + c * r)\<bar> \<le> 6 * r / 2 ^ 53 + 3 * eta"
    by (rule clamp_coordinate [OF r c2])
  have "\<bar>c - sin th\<bar> \<le> 1 / 2 ^ 52 + 1 / 2 ^ 50"
    using c a sin_lipschitz [of t th] by linarith
  then have "\<bar>c - sin th\<bar> * r \<le> (1 / 2 ^ 52 + 1 / 2 ^ 50) * r"
    using r by (rule mult_right_mono)
  moreover have "c * r - r * sin th = (c - sin th) * r"
    by (simp add: algebra_simps)
  then have "\<bar>c * r - r * sin th\<bar> = \<bar>c - sin th\<bar> * r"
    using r by (simp add: abs_mult)
  moreover have "(1 / 2 ^ 52 + 1 / 2 ^ 50) * r = 10 * r / 2 ^ 53"
    by simp
  ultimately have d: "\<bar>c * r - r * sin th\<bar> \<le> 10 * r / 2 ^ 53"
    by linarith
  have "(r / 2 ^ 49 :: real) = 16 * r / 2 ^ 53" by simp
  then show ?thesis using e d unfolding p53 by argo
qed

section \<open>Enclosures of the arctangent and of pi\<close>

lemma arctan_enclosure:
  fixes x :: real
  assumes "0 < x" and "x \<le> 1"
  shows "(\<Sum>i<2 * n. (- 1) ^ i * (1 / real (i * 2 + 1) * x ^ (i * 2 + 1))) \<le> arctan x"
    and "arctan x \<le> (\<Sum>i<2 * n + 1. (- 1) ^ i * (1 / real (i * 2 + 1) * x ^ (i * 2 + 1)))"
proof -
  have x: "\<bar>x\<bar> \<le> 1" using assms by simp
  have pos: "0 < 1 / real (0 * 2 + 1) * x ^ (0 * 2 + 1)" using assms by simp
  have "arctan x \<in> {(\<Sum>i<2 * n. (- 1) ^ i * (1 / real (i * 2 + 1) * x ^ (i * 2 + 1))) ..
      (\<Sum>i<2 * n + 1. (- 1) ^ i * (1 / real (i * 2 + 1) * x ^ (i * 2 + 1)))}"
    using summable_Leibniz(2) [OF zeroseq_arctan_series [OF x] monoseq_arctan_series [OF x]] pos
    unfolding arctan_series [OF x] by blast
  then show "(\<Sum>i<2 * n. (- 1) ^ i * (1 / real (i * 2 + 1) * x ^ (i * 2 + 1))) \<le> arctan x"
    and "arctan x \<le> (\<Sum>i<2 * n + 1. (- 1) ^ i * (1 / real (i * 2 + 1) * x ^ (i * 2 + 1)))"
    by simp_all
qed


lemma arctan_fifth:
  "197395559849880758369 / 10 ^ 21 < arctan (1 / 5)"
  "arctan (1 / 5) < 197395559849880758375 / 10 ^ 21"
proof -
  have "197395559849880758369 / 10 ^ 21 <
      (\<Sum>i<2 * 7. (- 1) ^ i * (1 / real (i * 2 + 1) * (1 / 5 :: real) ^ (i * 2 + 1)))"
    by (simp add: eval_nat_numeral)
  then show "197395559849880758369 / 10 ^ 21 < arctan (1 / 5)"
    using arctan_enclosure(1) [of "1 / 5" 7] by simp
  have "(\<Sum>i<2 * 6 + 1. (- 1) ^ i * (1 / real (i * 2 + 1) * (1 / 5 :: real) ^ (i * 2 + 1)))
      < 197395559849880758375 / 10 ^ 21"
    by (simp add: eval_nat_numeral)
  then show "arctan (1 / 5) < 197395559849880758375 / 10 ^ 21"
    using arctan_enclosure(2) [of "1 / 5" 6] by simp
qed

lemma arctan_239th:
  "4184076002074723864494 / 10 ^ 24 < arctan (1 / 239)"
  "arctan (1 / 239) < 4184076002074723864539 / 10 ^ 24"
proof -
  have "4184076002074723864494 / 10 ^ 24 <
      (\<Sum>i<2 * 2. (- 1) ^ i * (1 / real (i * 2 + 1) * (1 / 239 :: real) ^ (i * 2 + 1)))"
    by (simp add: eval_nat_numeral)
  then show "4184076002074723864494 / 10 ^ 24 < arctan (1 / 239)"
    using arctan_enclosure(1) [of "1 / 239" 2] by simp
  have "(\<Sum>i<2 * 2 + 1. (- 1) ^ i * (1 / real (i * 2 + 1) * (1 / 239 :: real) ^ (i * 2 + 1)))
      < 4184076002074723864539 / 10 ^ 24"
    by (simp add: eval_nat_numeral)
  then show "arctan (1 / 239) < 4184076002074723864539 / 10 ^ 24"
    using arctan_enclosure(2) [of "1 / 239" 2] by simp
qed

lemma pi_enclosure:
  "314159265358979323 / 10 ^ 17 < pi"
  "pi < 314159265358979324 / 10 ^ 17"
proof -
  have m: "pi = 16 * arctan (1 / 5) - 4 * arctan (1 / 239)"
    using machin by simp
  show "314159265358979323 / 10 ^ 17 < pi"
    unfolding m using arctan_fifth(1) arctan_239th(2) by simp
  show "pi < 314159265358979324 / 10 ^ 17"
    unfolding m using arctan_fifth(2) arctan_239th(1) by simp
qed

section \<open>A pointer far to the right and slightly up\<close>

lemma plain_radius: "joystickRadius plain_joystick = 100"
  by (simp add: plain_joystick_def)





section \<open>The scenario of the specification\<close>



section \<open>A pointer straight to the left\<close>

lemma pi_gap: "114 / 10 ^ 18 < pi - pi_double" "pi - pi_double < 125 / 10 ^ 18"
  using pi_enclosure by (simp_all add: pi_double_def)

lemma fl_pi: "fl pi = pi_double"
proof -
  have "fl pi = real_of_int 7074237752028440 * 2 ^ 1 / 2 ^ 52"
  proof (rule fl_eval_pos)
    show "2 ^ 1 \<le> \<bar>pi\<bar>" using pi_ge_two by simp
    show "\<bar>pi\<bar> < 2 ^ Suc 1" using pi_less_4 pi_gt_zero by simp
    show "\<bar>pi * 2 ^ 52 / 2 ^ 1 - real_of_int 7074237752028440\<bar> < 1 / 2"
      using pi_gap by (simp add: pi_double_def; argo)
  qed
  then show ?thesis by (simp add: pi_double_def)
qed

lemma sin_pi_double:
  "114 / 10 ^ 18 - 1 / 10 ^ 45 \<le> sin pi_double" "sin pi_double \<le> 125 / 10 ^ 18"
proof -
  define e where "e = pi - pi_double"
  have e: "114 / 10 ^ 18 < e" "e < 125 / 10 ^ 18"
    using pi_gap by (simp_all add: e_def)
  have s: "sin pi_double = sin e"
    by (simp add: e_def)
  have "\<bar>sin e - (\<Sum>m<3. sin_coeff m * e ^ m)\<bar> \<le> inverse (fact 3) * \<bar>e\<bar> ^ 3"
    by (rule Maclaurin_sin_bound)
  moreover have "(\<Sum>m<3. sin_coeff m * e ^ m) = e"
    by (simp add: sin_coeff_def eval_nat_numeral)
  moreover have "\<bar>e\<bar> ^ 3 \<le> (1 / 10 ^ 15) ^ 3"
    using e by (intro power_mono) simp_all
  ultimately have "\<bar>sin e - e\<bar> \<le> 1 / 10 ^ 45"
    by (simp add: eval_nat_numeral fact_numeral)
  then show "114 / 10 ^ 18 - 1 / 10 ^ 45 \<le> sin pi_double" "sin pi_double \<le> 125 / 10 ^ 18"
    using e sin_x_le_x [of e] unfolding s by linarith+
qed

lemma fl_cos_pi_double: "fl (cos pi_double) = - 1"
proof -
  define e where "e = pi - pi_double"
  have e: "0 < e" "e < 1 / 10 ^ 15"
    using pi_gap by (simp_all add: e_def)
  have c: "cos pi_double = - cos e"
    using cos_pi_minus [of e] by (simp add: e_def)
  have "e\<^sup>2 \<le> (1 / 10 ^ 15)\<^sup>2"
    using e by (intro power_mono) simp_all
  then have lo: "1 - 1 / 10 ^ 30 \<le> cos e"
    using cos_lower [of e] by (simp add: power_divide; argo)
  show ?thesis
  proof (cases "cos e = 1")
    case True
    then show ?thesis using fl_of_int [of "- 1"] by (simp add: c)
  next
    case False
    then have lt: "cos e < 1" using cos_le_one [of e] by linarith
    have "fl (- cos e) = real_of_int (- (2 ^ 53)) / 2 ^ (1 + 52)"
    proof (rule fl_eval_neg)
      show "1 / 2 ^ 1 \<le> \<bar>- cos e\<bar>" using lo by (simp; argo)
      show "\<bar>- cos e\<bar> < 2 / 2 ^ 1" using lt lo by (simp; argo)
      show "(1::nat) \<le> 1022" by simp
      show "\<bar>- cos e * 2 ^ (1 + 52) - real_of_int (- (2 ^ 53))\<bar> < 1 / 2"
        using lt lo by (simp; argo)
    qed
    then show ?thesis by (simp add: c)
  qed
qed

lemma left_sample_top: "fl (fl (fl (sin pi_double) * 100) + 100) = 100 + 1 / 2 ^ 46"
proof -
  define sn where "sn = fl (sin pi_double)"
  define d where "d = fl (sn * 100)"
  have s: "113 / 10 ^ 18 \<le> sin pi_double" "sin pi_double \<le> 125 / 10 ^ 18"
    using sin_pi_double by simp_all
  have "\<bar>sn - sin pi_double\<bar> \<le> \<bar>sin pi_double\<bar> / 2 ^ 53 + eta"
    unfolding sn_def by (rule fl_error)
  moreover have "eta \<le> 1 / 10 ^ 20"
  proof -
    have "(1 / 2 ^ 540 :: real) \<le> 1 / 10 ^ 20" by simp
    then show ?thesis using eta_small by linarith
  qed
  ultimately have sn': "112 / 10 ^ 18 \<le> sn \<and> sn \<le> 126 / 10 ^ 18"
    using s unfolding p53 by (simp; argo)
  then have sn: "112 / 10 ^ 18 \<le> sn" "sn \<le> 126 / 10 ^ 18"
    by blast+
  have "\<bar>d - sn * 100\<bar> \<le> \<bar>sn * 100\<bar> / 2 ^ 53 + eta"
    unfolding d_def by (rule fl_error)
  then have d': "111 / 10 ^ 16 \<le> d \<and> d \<le> 127 / 10 ^ 16"
    using sn \<open>eta \<le> 1 / 10 ^ 20\<close> unfolding p53 by (simp; argo)
  then have d: "111 / 10 ^ 16 \<le> d" "d \<le> 127 / 10 ^ 16"
    by blast+
  have "fl (d + 100) = real_of_int (100 * 2 ^ 46 + 1) * 2 ^ 6 / 2 ^ 52"
  proof (rule fl_eval_pos)
    show "2 ^ 6 \<le> \<bar>d + 100\<bar>" using d by (simp; argo)
    show "\<bar>d + 100\<bar> < 2 ^ Suc 6" using d by (simp; argo)
    show "\<bar>(d + 100) * 2 ^ 52 / 2 ^ 6 - real_of_int (100 * 2 ^ 46 + 1)\<bar> < 1 / 2"
      using d by (simp; argo)
  qed
  then show ?thesis by (simp add: d_def sn_def)
qed

lemma left_sample_distance:
  "Math_sqrt nearest_math (fl (Math_pow nearest_math (fl (- 100 - 100)) 2
      + Math_pow nearest_math (fl (100 - 100)) 2)) = 200"
  by (simp add: nearest_math_simps)

lemma left_sample_angle: "Math_atan2 nearest_math (fl (100 - 100)) (fl (- 100 - 100)) = pi_double"
  by (simp add: nearest_math_simps atan2_def fl_pi)

lemma left_sample:
  assumes r: "joystickRadius s = 100"
  shows "handle_style_left (handlePosition nearest_math (- 100) 100 s) = Some (Px 0)"
    and "handle_style_top (handlePosition nearest_math (- 100) 100 s) =
      Some (Px (100 + 1 / 2 ^ 46))"
proof -
  have l: "fl (fl (Math_cos nearest_math pi_double * 100) + 100) = 0"
    by (simp add: nearest_math_simps fl_cos_pi_double)
  have t: "fl (fl (Math_sin nearest_math pi_double * 100) + 100) = 100 + 1 / 2 ^ 46"
    by (simp only: nearest_math_simps left_sample_top)
  show "handle_style_left (handlePosition nearest_math (- 100) 100 s) = Some (Px 0)"
    unfolding handlePosition_left r left_sample_distance left_sample_angle l
    by simp
  show "handle_style_top (handlePosition nearest_math (- 100) 100 s) =
     Some (Px (100 + 1 / 2 ^ 46))"
    unfolding handlePosition_top r left_sample_distance left_sample_angle t
    by simp
qed

lemma left_sample_claimed:
  "100 + 100 * cos (atan2 (100 - 100) (- 100 - 100)) = 0"
  "100 + 100 * sin (atan2 (100 - 100) (- 100 - 100)) = 100"
  by (simp_all add: atan2_def)

section \<open>A pointer just outside the rim\<close>

lemma rim_dx: "fl (7002067461750699 / 2 ^ 45 - 100) = 3483630252867499 / 2 ^ 45"
proof -
  have "fl (3483630252867499 / 2 ^ 45) = real_of_int 6967260505734998 * 2 ^ 6 / 2 ^ 52"
  proof (rule fl_eval_pos)
    show "2 ^ 6 \<le> \<bar>3483630252867499 / 2 ^ 45 :: real\<bar>" by simp
    show "\<bar>3483630252867499 / 2 ^ 45 :: real\<bar> < 2 ^ Suc 6" by simp
    show "\<bar>3483630252867499 / 2 ^ 45 * 2 ^ 52 / 2 ^ 6 - real_of_int 6967260505734998\<bar> < 1 / 2"
      by simp
  qed
  then show ?thesis by simp
qed

lemma rim_dy: "fl (3649 / 32 - 100) = 449 / 32"
proof -
  have "fl (449 / 32) = real_of_int (449 * 2 ^ 44) * 2 ^ 3 / 2 ^ 52"
  proof (rule fl_eval_pos)
    show "2 ^ 3 \<le> \<bar>449 / 32 :: real\<bar>" by simp
    show "\<bar>449 / 32 :: real\<bar> < 2 ^ Suc 3" by simp
    show "\<bar>449 / 32 * 2 ^ 52 / 2 ^ 3 - real_of_int (449 * 2 ^ 44)\<bar> < 1 / 2"
      by simp
  qed
  then show ?thesis by simp
qed

lemma rim_pa: "fl ((3483630252867499 / 2 ^ 45)\<^sup>2) = 5389324426149889 / 2 ^ 39"
proof -
  have "fl ((3483630252867499 / 2 ^ 45)\<^sup>2) = real_of_int 5389324426149889 * 2 ^ 13 / 2 ^ 52"
  proof (rule fl_eval_pos)
    show "2 ^ 13 \<le> \<bar>(3483630252867499 / 2 ^ 45)\<^sup>2 :: real\<bar>"
      by (simp add: power2_eq_square)
    show "\<bar>(3483630252867499 / 2 ^ 45)\<^sup>2 :: real\<bar> < 2 ^ Suc 13"
      by (simp add: power2_eq_square)
    show "\<bar>(3483630252867499 / 2 ^ 45)\<^sup>2 * 2 ^ 52 / 2 ^ 13 - real_of_int 5389324426149889\<bar>
        < 1 / 2"
      by (simp add: power2_eq_square)
  qed
  then show ?thesis by simp
qed

lemma rim_pb: "fl ((449 / 32)\<^sup>2) = 201601 / 1024"
proof -
  have "fl ((449 / 32)\<^sup>2) = real_of_int (201601 * 2 ^ 35) * 2 ^ 7 / 2 ^ 52"
  proof (rule fl_eval_pos)
    show "2 ^ 7 \<le> \<bar>(449 / 32)\<^sup>2 :: real\<bar>"
      by (simp add: power2_eq_square)
    show "\<bar>(449 / 32)\<^sup>2 :: real\<bar> < 2 ^ Suc 7"
      by (simp add: power2_eq_square)
    show "\<bar>(449 / 32)\<^sup>2 * 2 ^ 52 / 2 ^ 7 - real_of_int (201601 * 2 ^ 35)\<bar> < 1 / 2"
      by (simp add: power2_eq_square)
  qed
  then show ?thesis by simp
qed

lemma rim_sum: "fl (5389324426149889 / 2 ^ 39 + 201601 / 1024) = 10000 + 1 / 2 ^ 39"
proof -
  have "fl (5389324426149889 / 2 ^ 39 + 201601 / 1024) =
      real_of_int 5497558138880001 * 2 ^ 13 / 2 ^ 52"
  proof (rule fl_eval_pos)
    show "2 ^ 13 \<le> \<bar>5389324426149889 / 2 ^ 39 + 201601 / 1024 :: real\<bar>" by simp
    show "\<bar>5389324426149889 / 2 ^ 39 + 201601 / 1024 :: real\<bar> < 2 ^ Suc 13" by simp
    show "\<bar>(5389324426149889 / 2 ^ 39 + 201601 / 1024) * 2 ^ 52 / 2 ^ 13
          - real_of_int 5497558138880001\<bar> < 1 / 2"
      by simp
  qed
  then show ?thesis by simp
qed

lemma rim_sqrt: "100 < fl (sqrt (10000 + 1 / 2 ^ 39))"
proof -
  define z :: real where "z = sqrt (10000 + 1 / 2 ^ 39)"
  have lo: "100 + 1 / 2 ^ 47 < z"
    unfolding z_def by (rule real_less_rsqrt) (simp add: power2_eq_square)
  have "z < sqrt (128\<^sup>2)"
    unfolding z_def by (simp only: real_sqrt_less_iff) simp
  then have hi: "z < 128" by simp
  have "ulp z = 2 ^ 6 / 2 ^ 52"
  proof (rule ulp_eval_pos)
    show "2 ^ 6 \<le> \<bar>z\<bar>" using lo by simp
    show "\<bar>z\<bar> < 2 ^ Suc 6" using lo hi by simp
  qed
  then have "ulp z / 2 = 1 / 2 ^ 47" by simp
  then have "\<bar>fl z - z\<bar> \<le> 1 / 2 ^ 47"
    using fl_half_ulp [of z] by simp
  then have "100 < fl z" using lo by linarith
  then show ?thesis by (simp only: z_def)
qed

lemma rim_distance:
  "100 < Math_sqrt nearest_math
           (fl (Math_pow nearest_math (fl (7002067461750699 / 2 ^ 45 - 100)) 2
              + Math_pow nearest_math (fl (3649 / 32 - 100)) 2))"
  by (simp only: rim_dx rim_dy nearest_math_simps rim_pa rim_pb rim_sum rim_sqrt)






lemma rim_clamped:
  "handle_style_left (handlePosition nearest_math (7002067461750699 / 2 ^ 45) (3649 / 32)
       plain_joystick) =
     Some (Px (fl (fl (Math_cos nearest_math
                         (Math_atan2 nearest_math (fl (3649 / 32 - 100))
                                                  (fl (7002067461750699 / 2 ^ 45 - 100))) * 100)
                   + 100)))"
  unfolding handlePosition_left plain_radius using rim_distance by simp

section \<open>Press and move\<close>

lemma drag_to:
  assumes "fl cx = cx" and "fl cy = cy"
  shows "run M plain_joystick [MouseDown, MouseMove cx cy 0 0] =
     handlePosition M cx cy (handleMouseDown plain_joystick)"
  using assms by (simp add: dispatch_def handleMouseMove_def handleMouseDown_def Let_def)

lemma held_radius: "joystickRadius (handleMouseDown plain_joystick) = 100"
  by (simp add: handleMouseDown_def plain_joystick_def)

lemma held_dragging: "dragging (handleMouseDown plain_joystick)"
  by (simp add: handleMouseDown_def)

lemma left_sample_xy:
  "handle_xy (handlePosition nearest_math (- 100) 100 (handleMouseDown plain_joystick)) =
     Some (0, 100 + 1 / 2 ^ 46)"
  unfolding handle_xy_def left_sample [OF held_radius] handlePosition_frame held_radius
  by simp

lemma left_sample_offset:
  "handle_offset (handlePosition nearest_math (- 100) 100 (handleMouseDown plain_joystick)) =
     Some (sqrt ((0 - 100)\<^sup>2 + (100 + 1 / 2 ^ 46 - 100)\<^sup>2))"
  unfolding handle_offset_def left_sample_xy handlePosition_frame held_radius
  by simp

lemma left_sample_outside: "100 < sqrt ((0 - 100)\<^sup>2 + (100 + 1 / 2 ^ 46 - 100)\<^sup>2)"
  by (rule real_less_rsqrt) simp

lemma left_sample_sin:
  "fl (fl (Math_sin nearest_math pi_double * 100) + 100) = 100 + 1 / 2 ^ 46"
  by (simp only: nearest_math_simps left_sample_top)

lemma scenario_held:
  assumes r: "joystickRadius s = 100"
  shows "handle_style_left (handlePosition nearest_math 300 100 s) = Some (Px 200)"
    and "handle_style_top (handlePosition nearest_math 300 100 s) = Some (Px 100)"
  unfolding handlePosition_left handlePosition_top r
  by (simp_all add: nearest_math_simps atan2_def)

lemma grazing_xy:
  "handle_xy (handlePosition nearest_math 200 (100 + 1 / 2 ^ 33) (handleMouseDown plain_joystick)) =
     Some (200, 100 + 1 / 2 ^ 33)"
  unfolding handle_xy_def grazing_sample [OF held_radius] handlePosition_frame held_radius
  by simp

lemma not_within_track:
  "handle_offset s = Some d \<Longrightarrow> joystickRadius s < d \<Longrightarrow> \<not> within_track s"
  by (simp add: within_track_def)

lemma near_track_plain: "near_track plain_joystick"
  by (simp add: near_track_def handle_offset_def handle_xy_def plain_joystick_def)

section \<open>The claims\<close>

text \<open>
  Claim C1, as stated, fails. The track is 200 pixels wide and the pointer, held down, is
  at raw \<open>(-100, 100)\<close>: at distance 200 from the centre \<open>(100, 100)\<close>, straight to the
  left. The claimed position is \<open>(100 + 100 cos \<pi>, 100 + 100 sin \<pi>) = (0, 100)\<close>. The
  class computes the angle as the double nearest to \<open>\<pi>\<close>, whose sine is not zero, and
  writes \<open>top = 100 + 2\<^sup>-\<^sup>4\<^sup>6\<close>: the handle is neither at the claimed point nor on the
  boundary circle.
\<close>

theorem handlePosition_placement_counterexample:
  "joystickRadius (handleMouseDown plain_joystick) = 100
   \<and> dragging (handleMouseDown plain_joystick)
   \<and> 100 < sqrt ((- 100 - 100)\<^sup>2 + (100 - 100)\<^sup>2 :: real)
   \<and> 100 + 100 * cos (atan2 (100 - 100) (- 100 - 100)) = 0
   \<and> 100 + 100 * sin (atan2 (100 - 100) (- 100 - 100)) = 100
   \<and> dispatch nearest_math (MouseMove (- 100) 100 0 0) (handleMouseDown plain_joystick) =
       handlePosition nearest_math (- 100) 100 (handleMouseDown plain_joystick)
   \<and> handle_style_left (handlePosition nearest_math (- 100) 100 (handleMouseDown plain_joystick)) =
       Some (Px 0)
   \<and> handle_style_top (handlePosition nearest_math (- 100) 100 (handleMouseDown plain_joystick)) =
       Some (Px (100 + 1 / 2 ^ 46))
   \<and> handle_style_top (handlePosition nearest_math (- 100) 100 (handleMouseDown plain_joystick)) \<noteq>
       Some (Px (100 + 100 * sin (atan2 (100 - 100) (- 100 - 100))))
   \<and> handle_offset (handlePosition nearest_math (- 100) 100 (handleMouseDown plain_joystick)) \<noteq>
       Some 100"
proof -
  have far: "100 < sqrt ((- 100 - 100)\<^sup>2 + (100 - 100)\<^sup>2 :: real)"
    by simp
  have move: "dispatch nearest_math (MouseMove (- 100) 100 0 0) (handleMouseDown plain_joystick) =
      handlePosition nearest_math (- 100) 100 (handleMouseDown plain_joystick)"
    by (simp add: dispatch_def handleMouseMove_def handleMouseDown_def Let_def)
  have top: "handle_style_top (handlePosition nearest_math (- 100) 100
        (handleMouseDown plain_joystick)) \<noteq>
      Some (Px (100 + 100 * sin (atan2 (100 - 100) (- 100 - 100))))"
    unfolding left_sample(2) [OF held_radius] left_sample_claimed by simp
  have off: "handle_offset (handlePosition nearest_math (- 100) 100
        (handleMouseDown plain_joystick)) \<noteq> Some 100"
    unfolding left_sample_offset using left_sample_outside by simp
  show ?thesis
    using held_radius held_dragging far left_sample_claimed move left_sample [OF held_radius]
      top off
    by blast
qed

text \<open>
  Claim C1, amended. \<open>handlePosition\<close> on a raw pair \<open>(x, y)\<close> computes, in doubles, the
  displacement \<open>(dx, dy)\<close> from the centre \<open>(r, r)\<close>, its length \<open>d\<close> and its angle
  \<open>theta\<close>. When \<open>d \<le> r\<close> the handle's \<open>left\<close> and \<open>top\<close> are exactly \<open>x\<close> and \<open>y\<close> pixels;
  otherwise they are the doubles computed for \<open>cos theta * r + r\<close> and
  \<open>sin theta * r + r\<close>. With an accurate \<open>Math\<close> and \<open>r \<ge> 0\<close>, each of these two is within
  \<open>r / 2\<^sup>4\<^sup>9 + 3 eta\<close> of the coordinate of the point of the boundary circle at the angle of
  \<open>(dx, dy)\<close>, and the first branch is taken only for a pointer at most \<open>slack r\<close> from the
  centre. While dragging, a \<open>mousemove\<close> or \<open>touchmove\<close> is \<open>handlePosition\<close> on the
  rounded differences of the pointer's coordinates and the corner of the track's bounding
  rectangle.
\<close>

theorem handlePosition_placement:
  "(let r = joystickRadius s;
        dx = fl (x - r);
        dy = fl (y - r);
        d = Math_sqrt M (fl (Math_pow M dx 2 + Math_pow M dy 2));
        theta = Math_atan2 M dy dx
    in handle_style_left (handlePosition M x y s) =
         Some (Px (if d \<le> r then x else fl (fl (Math_cos M theta * r) + r)))
     \<and> handle_style_top (handlePosition M x y s) =
         Some (Px (if d \<le> r then y else fl (fl (Math_sin M theta * r) + r)))
     \<and> (accurate M \<and> 0 \<le> r \<longrightarrow>
          \<bar>fl (fl (Math_cos M theta * r) + r) - (r + r * cos (atan2 dy dx))\<bar>
            \<le> r / 2 ^ 49 + 3 * eta
        \<and> \<bar>fl (fl (Math_sin M theta * r) + r) - (r + r * sin (atan2 dy dx))\<bar>
            \<le> r / 2 ^ 49 + 3 * eta)
     \<and> (accurate M \<and> 0 \<le> r \<and> d \<le> r \<longrightarrow> sqrt ((x - r)\<^sup>2 + (y - r)\<^sup>2) \<le> slack r))
   \<and> (dragging s \<longrightarrow>
        dispatch M (MouseMove clientX clientY rect_left rect_top) s =
          handlePosition M (fl (clientX - rect_left)) (fl (clientY - rect_top)) s
      \<and> dispatch M (TouchMove ((clientX, clientY) # ts) rect_left rect_top) s =
          emit PreventDefault
            (handlePosition M (fl (clientX - rect_left)) (fl (clientY - rect_top)) s))"
proof -
  define r where "r = joystickRadius s"
  define dx where "dx = fl (x - r)"
  define dy where "dy = fl (y - r)"
  define d where "d = Math_sqrt M (fl (Math_pow M dx 2 + Math_pow M dy 2))"
  define theta where "theta = Math_atan2 M dy dx"
  have left: "handle_style_left (handlePosition M x y s) =
      Some (Px (if d \<le> r then x else fl (fl (Math_cos M theta * r) + r)))"
    unfolding handlePosition_left d_def theta_def dx_def dy_def r_def by simp
  have top: "handle_style_top (handlePosition M x y s) =
      Some (Px (if d \<le> r then y else fl (fl (Math_sin M theta * r) + r)))"
    unfolding handlePosition_top d_def theta_def dx_def dy_def r_def by simp
  have near: "\<bar>fl (fl (Math_cos M theta * r) + r) - (r + r * cos (atan2 dy dx))\<bar>
        \<le> r / 2 ^ 49 + 3 * eta
      \<and> \<bar>fl (fl (Math_sin M theta * r) + r) - (r + r * sin (atan2 dy dx))\<bar>
        \<le> r / 2 ^ 49 + 3 * eta"
    if acc: "accurate M" and r0: "0 \<le> r"
  proof -
    have c: "\<bar>Math_cos M theta - cos theta\<bar> \<le> 1 / 2 ^ 52"
      and sn: "\<bar>Math_sin M theta - sin theta\<bar> \<le> 1 / 2 ^ 52"
      and a: "\<bar>theta - atan2 dy dx\<bar> \<le> 1 / 2 ^ 50"
      using acc unfolding accurate_def theta_def by blast+
    show ?thesis
      using clamp_near_boundary [OF r0 c a] clamp_near_boundary_sin [OF r0 sn a] by simp
  qed
  have inside: "sqrt ((x - r)\<^sup>2 + (y - r)\<^sup>2) \<le> slack r"
    if acc: "accurate M" and r0: "0 \<le> r" and dr: "d \<le> r"
    using acc r0 dr [unfolded d_def dx_def dy_def] by (rule inside_offset)
  have move: "dragging s \<longrightarrow>
        dispatch M (MouseMove clientX clientY rect_left rect_top) s =
          handlePosition M (fl (clientX - rect_left)) (fl (clientY - rect_top)) s
      \<and> dispatch M (TouchMove ((clientX, clientY) # ts) rect_left rect_top) s =
          emit PreventDefault
            (handlePosition M (fl (clientX - rect_left)) (fl (clientY - rect_top)) s)"
    by (simp add: dispatch_def handleMouseMove_def handleTouchMove_def Let_def)
  have "handle_style_left (handlePosition M x y s) =
         Some (Px (if d \<le> r then x else fl (fl (Math_cos M theta * r) + r)))
     \<and> handle_style_top (handlePosition M x y s) =
         Some (Px (if d \<le> r then y else fl (fl (Math_sin M theta * r) + r)))
     \<and> (accurate M \<and> 0 \<le> r \<longrightarrow>
          \<bar>fl (fl (Math_cos M theta * r) + r) - (r + r * cos (atan2 dy dx))\<bar>
            \<le> r / 2 ^ 49 + 3 * eta
        \<and> \<bar>fl (fl (Math_sin M theta * r) + r) - (r + r * sin (atan2 dy dx))\<bar>
            \<le> r / 2 ^ 49 + 3 * eta)
     \<and> (accurate M \<and> 0 \<le> r \<and> d \<le> r \<longrightarrow> sqrt ((x - r)\<^sup>2 + (y - r)\<^sup>2) \<le> slack r)"
    using left top near inside by blast
  then show ?thesis
    unfolding Let_def r_def dx_def dy_def d_def theta_def using move by blast
qed

theorem handlePosition_placement_witness:
  "accurate nearest_math
   \<and> 0 \<le> joystickRadius (handleMouseDown plain_joystick)
   \<and> dragging (handleMouseDown plain_joystick)
   \<and> handle_style_top (handlePosition nearest_math (- 100) 100 (handleMouseDown plain_joystick)) =
       Some (Px (100 + 1 / 2 ^ 46))
   \<and> \<bar>100 + 1 / 2 ^ 46 - (100 + 100 * sin (atan2 0 (- 200)))\<bar> \<le> 100 / 2 ^ 49 + 3 * eta
   \<and> handle_style_left (dispatch nearest_math (MouseMove 310 120 10 20)
         (handleMouseDown plain_joystick)) = Some (Px 200)
   \<and> handle_style_top (dispatch nearest_math (TouchMove [(310, 120)] 10 20)
         (handleMouseDown plain_joystick)) = Some (Px 100)"
proof -
  let ?s = "handleMouseDown plain_joystick"
  have r0: "0 \<le> joystickRadius ?s" by (simp add: held_radius)
  have d: "fl (100 - 100) = 0" "fl (- 100 - 100) = - 200" by simp_all
  have a: "Math_atan2 nearest_math 0 (- 200) = pi_double"
    using left_sample_angle by simp
  have "\<bar>fl (fl (Math_sin nearest_math
                (Math_atan2 nearest_math (fl (100 - joystickRadius ?s))
                                         (fl (- 100 - joystickRadius ?s)))
              * joystickRadius ?s) + joystickRadius ?s)
        - (joystickRadius ?s + joystickRadius ?s
             * sin (atan2 (fl (100 - joystickRadius ?s)) (fl (- 100 - joystickRadius ?s))))\<bar>
      \<le> joystickRadius ?s / 2 ^ 49 + 3 * eta"
    using handlePosition_placement [where M = nearest_math and s = ?s and x = "- 100" and y = 100]
      accurate_nearest_math r0
    unfolding Let_def by blast
  then have bound: "\<bar>100 + 1 / 2 ^ 46 - (100 + 100 * sin (atan2 0 (- 200)))\<bar>
      \<le> 100 / 2 ^ 49 + 3 * eta"
    unfolding held_radius d a left_sample_sin .
  have "handle_style_top (handlePosition nearest_math (- 100) 100 ?s) =
      Some (Px (if Math_sqrt nearest_math
                     (fl (Math_pow nearest_math (fl (- 100 - joystickRadius ?s)) 2
                        + Math_pow nearest_math (fl (100 - joystickRadius ?s)) 2))
                   \<le> joystickRadius ?s
                then 100
                else fl (fl (Math_sin nearest_math
                               (Math_atan2 nearest_math (fl (100 - joystickRadius ?s))
                                                        (fl (- 100 - joystickRadius ?s)))
                             * joystickRadius ?s) + joystickRadius ?s)))"
    using handlePosition_placement [where M = nearest_math and s = ?s and x = "- 100" and y = 100]
    unfolding Let_def by blast
  then have top: "handle_style_top (handlePosition nearest_math (- 100) 100 ?s) =
      Some (Px (100 + 1 / 2 ^ 46))"
    unfolding held_radius left_sample_distance left_sample_angle left_sample_sin by simp
  have "dispatch nearest_math (MouseMove 310 120 10 20) ?s =
          handlePosition nearest_math (fl (310 - 10)) (fl (120 - 20)) ?s
      \<and> dispatch nearest_math (TouchMove ((310, 120) # []) 10 20) ?s =
          emit PreventDefault (handlePosition nearest_math (fl (310 - 10)) (fl (120 - 20)) ?s)"
    using handlePosition_placement [where M = nearest_math and s = ?s and clientX = 310
        and clientY = 120 and rect_left = 10 and rect_top = 20 and ts = "[]"] held_dragging
    by blast
  then have moved: "handle_style_left (dispatch nearest_math (MouseMove 310 120 10 20) ?s) =
        Some (Px 200)"
      "handle_style_top (dispatch nearest_math (TouchMove [(310, 120)] 10 20) ?s) =
        Some (Px 100)"
    using scenario_held [OF held_radius] by (simp_all add: emit_def)
  show ?thesis
    using accurate_nearest_math r0 held_dragging top bound moved by blast
qed


text \<open>
  Claim C3, as stated, fails. On the track 200 pixels wide the pointer is pressed and
  moved to \<open>(200, 100 + 2\<^sup>-\<^sup>3\<^sup>3)\<close>, just outside the rim: the sum of the squares rounds to
  \<open>10000\<close>, the class finds the distance equal to the radius and writes the raw pair. Moved
  to \<open>(-100, 100)\<close> instead, the pointer is clamped to \<open>(0, 100 + 2\<^sup>-\<^sup>4\<^sup>6)\<close>. In both cases
  the handle's offset from the centre is longer than the radius.
\<close>

theorem clamping_invariant_counterexample:
  "constructor no_options True 200 = Inr plain_joystick
   \<and> joystickRadius plain_joystick = 100
   \<and> handle_xy (run nearest_math plain_joystick [MouseDown, MouseMove 200 (100 + 1 / 2 ^ 33) 0 0]) =
       Some (200, 100 + 1 / 2 ^ 33)
   \<and> \<not> within_track
         (run nearest_math plain_joystick [MouseDown, MouseMove 200 (100 + 1 / 2 ^ 33) 0 0])
   \<and> handle_xy (run nearest_math plain_joystick [MouseDown, MouseMove (- 100) 100 0 0]) =
       Some (0, 100 + 1 / 2 ^ 46)
   \<and> \<not> within_track (run nearest_math plain_joystick [MouseDown, MouseMove (- 100) 100 0 0])"
proof -
  have g: "run nearest_math plain_joystick [MouseDown, MouseMove 200 (100 + 1 / 2 ^ 33) 0 0] =
      handlePosition nearest_math 200 (100 + 1 / 2 ^ 33) (handleMouseDown plain_joystick)"
    by (rule drag_to) (simp, rule fl_sample_y)
  have l: "run nearest_math plain_joystick [MouseDown, MouseMove (- 100) 100 0 0] =
      handlePosition nearest_math (- 100) 100 (handleMouseDown plain_joystick)"
    by (rule drag_to) simp_all
  have r: "joystickRadius (handlePosition nearest_math cx cy (handleMouseDown plain_joystick)) = 100"
    for cx cy
    by (simp add: handlePosition_frame held_radius)
  have g': "\<not> within_track
      (handlePosition nearest_math 200 (100 + 1 / 2 ^ 33) (handleMouseDown plain_joystick))"
    using grazing_offset [OF held_radius] grazing_outside
    by (intro not_within_track) (simp_all only: r)
  have l': "\<not> within_track
      (handlePosition nearest_math (- 100) 100 (handleMouseDown plain_joystick))"
    using left_sample_offset left_sample_outside
    by (intro not_within_track) (simp_all only: r)
  show ?thesis
    unfolding g l using constructor_plain plain_radius grazing_xy g' left_sample_xy l' by blast
qed

text \<open>
  Claim C3, amended. With an accurate \<open>Math\<close>, on a track of radius \<open>r \<ge> 0\<close>, after
  \<open>handlePosition\<close> on any raw pair, and so after any move event received while dragging,
  the handle is placed and its offset from the centre has length at most \<open>slack r\<close>, the
  radius and one part in \<open>2\<^sup>4\<^sup>9\<close> of it. Every event handler preserves \<open>near_track\<close>, and
  it holds after every sequence of events on an object the constructor built (whose
  radius is half an \<open>offsetWidth\<close>, hence not negative). \<open>near_track\<close> says nothing of a
  handle the class has not positioned yet.
\<close>

theorem clamping_invariant:
  "(accurate M \<and> 0 \<le> joystickRadius s \<longrightarrow> placed_near_track (handlePosition M x y s))
   \<and> (accurate M \<and> 0 \<le> joystickRadius s \<and> dragging s \<longrightarrow>
        placed_near_track (dispatch M (MouseMove clientX clientY rect_left rect_top) s)
      \<and> placed_near_track
          (dispatch M (TouchMove ((clientX, clientY) # ts) rect_left rect_top) s))
   \<and> (accurate M \<and> 0 \<le> joystickRadius s \<and> near_track s \<longrightarrow> near_track (dispatch M e s))
   \<and> (accurate M \<and> constructor opts parent_found offsetWidth = Inr s0 \<longrightarrow>
        near_track (run M s0 evs))"
  using handlePosition_placed [of M s x y] move_placed [of M s]
    dispatch_near_track [of M s e]
    constructor_near_track [of opts parent_found offsetWidth s0] run_near_track [of M s0 evs]
  by blast

theorem clamping_invariant_witness:
  "accurate nearest_math
   \<and> 0 \<le> joystickRadius plain_joystick
   \<and> placed_near_track (handlePosition nearest_math 300 100 plain_joystick)
   \<and> 0 \<le> joystickRadius (handleMouseDown plain_joystick)
   \<and> dragging (handleMouseDown plain_joystick)
   \<and> placed_near_track (dispatch nearest_math (MouseMove 200 (100 + 1 / 2 ^ 33) 0 0)
         (handleMouseDown plain_joystick))
   \<and> placed_near_track (dispatch nearest_math (TouchMove [(- 100, 100)] 0 0)
         (handleMouseDown plain_joystick))
   \<and> near_track plain_joystick
   \<and> near_track (dispatch nearest_math MouseUp plain_joystick)
   \<and> constructor no_options True 200 = Inr plain_joystick
   \<and> near_track (run nearest_math plain_joystick [MouseDown, MouseMove (- 100) 100 0 0, MouseUp])"
proof -
  have r: "0 \<le> joystickRadius plain_joystick" "0 \<le> joystickRadius (handleMouseDown plain_joystick)"
    by (simp_all add: plain_radius held_radius)
  note A = clamping_invariant [of nearest_math plain_joystick 300 100 0 0 0 0 "[]" MouseUp
      no_options True 200 plain_joystick "[MouseDown, MouseMove (- 100) 100 0 0, MouseUp]"]
  note B = clamping_invariant [of nearest_math "handleMouseDown plain_joystick" 300 100
      200 "100 + 1 / 2 ^ 33" 0 0 "[]" MouseUp no_options True 200 plain_joystick "[]"]
  note C = clamping_invariant [of nearest_math "handleMouseDown plain_joystick" 300 100
      "- 100" 100 0 0 "[]" MouseUp no_options True 200 plain_joystick "[]"]
  have a1: "placed_near_track (handlePosition nearest_math 300 100 plain_joystick)"
    using A accurate_nearest_math r(1) by blast
  have a2: "near_track (dispatch nearest_math MouseUp plain_joystick)"
    using A accurate_nearest_math r(1) near_track_plain by blast
  have a3: "near_track (run nearest_math plain_joystick
      [MouseDown, MouseMove (- 100) 100 0 0, MouseUp])"
    using A accurate_nearest_math constructor_plain by blast
  have b1: "placed_near_track (dispatch nearest_math (MouseMove 200 (100 + 1 / 2 ^ 33) 0 0)
      (handleMouseDown plain_joystick))"
    using B accurate_nearest_math r(2) held_dragging by blast
  have c1: "placed_near_track (dispatch nearest_math (TouchMove [(- 100, 100)] 0 0)
      (handleMouseDown plain_joystick))"
    using C accurate_nearest_math r(2) held_dragging by blast
  show ?thesis
    using accurate_nearest_math r held_dragging near_track_plain constructor_plain
      a1 a2 a3 b1 c1
    by blast
qed





text \<open>
  Claim C6. A press appends to the trace, in this order: the diagnostic line in debug
  mode, the call of \<open>beforePressKey\<close> if supplied, the call of \<open>pressKeyFunction\<close> if
  supplied and otherwise the synthesized \<open>keydown\<close> of the direction (ArrowUp 38,
  ArrowDown 40, ArrowLeft 37, ArrowRight 39), the call of \<open>afterPressKey\<close> if supplied. A
  release appends the diagnostic line in debug mode, then the calls of
  \<open>beforeReleaseKeys\<close>, \<open>releaseKeysFunction\<close> and \<open>afterReleaseKeys\<close>, each if supplied,
  and nothing else. No sequence of events adds a synthesized keyboard event of another
  type than \<open>keydown\<close> to the trace.
\<close>

theorem emission_order:
  "effects (pressKey key s) =
     effects s @ debug_out (''Pressing the key: '' @ key) s @
     (if beforePressKey s then [CallBeforePressKey key] else []) @
     (if pressKeyFunction s then [CallPressKeyFunction key] else fallback_out key) @
     (if afterPressKey s then [CallAfterPressKey key] else [])
   \<and> fallback_out ''up'' = [DispatchKeyboardEvent ''keydown'' ''ArrowUp'' 38]
   \<and> fallback_out ''down'' = [DispatchKeyboardEvent ''keydown'' ''ArrowDown'' 40]
   \<and> fallback_out ''left'' = [DispatchKeyboardEvent ''keydown'' ''ArrowLeft'' 37]
   \<and> fallback_out ''right'' = [DispatchKeyboardEvent ''keydown'' ''ArrowRight'' 39]
   \<and> effects (releaseKeys s) =
     effects s @ debug_out ''Releasing all keys'' s @
     (if beforeReleaseKeys s then [CallBeforeReleaseKeys] else []) @
     (if releaseKeysFunction s then [CallReleaseKeysFunction] else []) @
     (if afterReleaseKeys s then [CallAfterReleaseKeys] else [])
   \<and> filter is_other_key_event (effects (run M s evs)) = filter is_other_key_event (effects s)"
  by (simp add: pressKey_eq releaseKeys_eq press_emission_def release_emission_def
      fallback_out_def run_other_key_event)

text \<open>
  Claim C7. \<open>handleMouseLeave\<close>, the listener of \<open>mouseleave\<close>: while dragging it returns
  the state as it was, trace included; when not dragging it puts the handle at the centre
  and the trace grows by one release emission.
\<close>

theorem mouse_leave_only_when_idle:
  "(dragging s \<longrightarrow> handleMouseLeave s = s)
   \<and> (\<not> dragging s \<longrightarrow>
        handle_style_left (handleMouseLeave s) = Some (Percent 50)
      \<and> handle_style_top (handleMouseLeave s) = Some (Percent 50)
      \<and> handle_xy (handleMouseLeave s) = Some (joystickRadius s, joystickRadius s)
      \<and> effects (handleMouseLeave s) = effects (releaseKeys s)
      \<and> dragging (handleMouseLeave s) = False)
   \<and> dispatch M MouseLeave s = handleMouseLeave s"
  by (simp add: handleMouseLeave_def releaseKeys_eq handle_xy_def dispatch_def
      debug_out_def release_emission_def)

theorem mouse_leave_only_when_idle_witness:
  "dragging (plain_joystick\<lparr>dragging := True\<rparr>)
   \<and> handleMouseLeave (plain_joystick\<lparr>dragging := True\<rparr>) = plain_joystick\<lparr>dragging := True\<rparr>
   \<and> \<not> dragging hooked_joystick
   \<and> handle_xy (handleMouseLeave hooked_joystick) = Some (100, 100)
   \<and> effects (handleMouseLeave hooked_joystick) =
       [ConsoleLog ''Releasing all keys'', CallBeforeReleaseKeys, CallReleaseKeysFunction,
        CallAfterReleaseKeys]"
  using mouse_leave_only_when_idle [of "plain_joystick\<lparr>dragging := True\<rparr>"]
    mouse_leave_only_when_idle [of hooked_joystick]
  by (simp add: plain_joystick_def hooked_joystick_def releaseKeys_eq debug_out_def
      release_emission_def)

text \<open>
  Claim C8. A \<open>mousemove\<close> or \<open>touchmove\<close> received while \<open>dragging\<close> is false returns the
  state as it was, for every coordinate pair and every touch list: no field changes and
  the trace does not grow.
\<close>

theorem move_while_idle_is_noop:
  "\<not> dragging s \<Longrightarrow>
     handleMouseMove M clientX clientY rect_left rect_top s = s
   \<and> handleTouchMove M touches rect_left rect_top s = Inr s
   \<and> dispatch M (MouseMove clientX clientY rect_left rect_top) s = s
   \<and> dispatch M (TouchMove touches rect_left rect_top) s = s"
  by (simp add: handleMouseMove_def handleTouchMove_def dispatch_def)

theorem move_while_idle_is_noop_witness:
  "\<not> dragging hooked_joystick
   \<and> handleMouseMove nearest_math 300 100 0 0 hooked_joystick = hooked_joystick
   \<and> handleTouchMove nearest_math [(300, 100)] 0 0 hooked_joystick = Inr hooked_joystick
   \<and> dispatch nearest_math (MouseMove 300 100 0 0) hooked_joystick = hooked_joystick
   \<and> dispatch nearest_math (TouchMove [(300, 100)] 0 0) hooked_joystick = hooked_joystick"
  using move_while_idle_is_noop [of hooked_joystick nearest_math 300 100 0 0 "[(300, 100)]"]
  by (simp add: hooked_joystick_def)

text \<open>
  Claim C9. With \<open>enableDebug\<close> false a press appends exactly its hook and handler calls
  (or the fallback key-down) and a release exactly its calls; neither a single emission
  nor any sequence of events adds a diagnostic line to the trace.
\<close>

theorem no_diagnostics_without_debug:
  "\<not> enableDebug s \<Longrightarrow>
     effects (pressKey key s) = effects s @ press_emission key s
   \<and> effects (releaseKeys s) = effects s @ release_emission s
   \<and> list_all is_call_or_key_down (press_emission key s)
   \<and> list_all is_call_or_key_down (release_emission s)
   \<and> filter is_diagnostic (effects (pressKey key s)) = filter is_diagnostic (effects s)
   \<and> filter is_diagnostic (effects (releaseKeys s)) = filter is_diagnostic (effects s)
   \<and> filter is_diagnostic (effects (run M s evs)) = filter is_diagnostic (effects s)"
  by (simp add: pressKey_eq releaseKeys_eq debug_out_off emission_calls_only
      emission_no_diagnostic run_diagnostic)

theorem no_diagnostics_without_debug_witness:
  "\<not> enableDebug (hooked_joystick\<lparr>enableDebug := False\<rparr>)
   \<and> effects (pressKey ''up'' (hooked_joystick\<lparr>enableDebug := False\<rparr>)) =
       [CallBeforePressKey ''up'', CallPressKeyFunction ''up'', CallAfterPressKey ''up'']
   \<and> effects (releaseKeys (hooked_joystick\<lparr>enableDebug := False\<rparr>)) =
       [CallBeforeReleaseKeys, CallReleaseKeysFunction, CallAfterReleaseKeys]
   \<and> filter is_diagnostic
         (effects (run nearest_math (hooked_joystick\<lparr>enableDebug := False\<rparr>)
                       [MouseDown, MouseMove 190 100 0 0, MouseUp])) = []"
  using no_diagnostics_without_debug [of "hooked_joystick\<lparr>enableDebug := False\<rparr>" "''up''" nearest_math
      "[MouseDown, MouseMove 190 100 0 0, MouseUp]"]
  by (simp add: hooked_joystick_def press_emission_def release_emission_def)

text \<open>
  Claim C10. \<open>pressKey\<close> and \<open>releaseKeys\<close> change the trace only: for every key argument
  the result is the state with the emission appended to \<open>effects\<close>, so \<open>dragging\<close>, the
  handle's position and \<open>joystickRadius\<close> are what they were. (The calls of the owner's
  functions are taken not to write the joystick's fields.)
\<close>

theorem emission_frame:
  "pressKey key s =
     s\<lparr>effects := effects s @ debug_out (''Pressing the key: '' @ key) s @ press_emission key s\<rparr>
   \<and> dragging (pressKey key s) = dragging s
   \<and> handle_style_left (pressKey key s) = handle_style_left s
   \<and> handle_style_top (pressKey key s) = handle_style_top s
   \<and> joystickRadius (pressKey key s) = joystickRadius s
   \<and> releaseKeys s =
     s\<lparr>effects := effects s @ debug_out ''Releasing all keys'' s @ release_emission s\<rparr>
   \<and> dragging (releaseKeys s) = dragging s
   \<and> handle_style_left (releaseKeys s) = handle_style_left s
   \<and> handle_style_top (releaseKeys s) = handle_style_top s
   \<and> joystickRadius (releaseKeys s) = joystickRadius s"
  using pressKey_eq [of key s] releaseKeys_eq [of s] by simp

end
